theory Spec2Isabelle
  imports Main
begin

section \<open>Plan trees\<close>

text \<open>
  The tags the switch of \<open>BuildExecutorTree\<close> names, and \<open>PLAN_NODE_TYPE_OTHER\<close> for every
  other value of the enumeration (the switch sends them to its \<open>default\<close> branch).
\<close>

datatype PlanNodeType =
    PLAN_NODE_TYPE_INVALID
  | PLAN_NODE_TYPE_SEQSCAN
  | PLAN_NODE_TYPE_INDEXSCAN
  | PLAN_NODE_TYPE_INSERT
  | PLAN_NODE_TYPE_DELETE
  | PLAN_NODE_TYPE_UPDATE
  | PLAN_NODE_TYPE_LIMIT
  | PLAN_NODE_TYPE_NESTLOOP
  | PLAN_NODE_TYPE_MERGEJOIN
  | PLAN_NODE_TYPE_PROJECTION
  | PLAN_NODE_TYPE_MATERIALIZE
  | PLAN_NODE_TYPE_AGGREGATE_V2
  | PLAN_NODE_TYPE_ORDERBY
  | PLAN_NODE_TYPE_OTHER nat

text \<open>
  A plan node has a tag and an ordered vector of child pointers. A pointer to a plan is an
  \<open>AbstractPlan option\<close>, \<open>None\<close> being \<open>nullptr\<close>; the vector of children holds pointers, so it
  may hold null ones (\<open>BuildExecutorTree\<close> tests for them).
\<close>

datatype AbstractPlan =
  AbstractPlan (GetPlanNodeType: PlanNodeType) (GetChildren: "AbstractPlan option list")

section \<open>Executors, contexts and the store\<close>

text \<open>The classes of executor that this file constructs.\<close>

datatype ExecutorKind =
    SeqScanExecutor
  | IndexScanExecutor
  | InsertExecutor
  | DeleteExecutor
  | UpdateExecutor
  | LimitExecutor
  | NestedLoopJoinExecutor
  | MergeJoinExecutor
  | ProjectionExecutor
  | MaterializationExecutor
  | AggregateExecutor
  | OrderByExecutor

type_synonym TransactionId = nat
type_synonym ParamListInfo = "int list"
type_synonym ValueArray = "int list"
type_synonym Tuple = "int list"
type_synonym TupleDesc = nat
type_synonym TupleTableSlot = "int list"

datatype Result = RESULT_SUCCESS | RESULT_FAILURE | RESULT_OTHER nat

text \<open>
  An executor context is the pair that its constructor receives. A transaction pointer is
  the identifier under which the transaction manager knows the transaction.
\<close>

record ExecutorContext =
  ctx_txn :: TransactionId
  ctx_params :: ValueArray

text \<open>
  Modelled from the spec: the class \<open>AbstractExecutor\<close> is declared outside this file. An
  operator holds a back-reference to its plan node, its context and an ordered sequence of
  children, empty at construction; \<open>AddChild\<close> appends to it. Pointers to executors and to
  contexts are addresses (indices) into the store.
\<close>

record AbstractExecutor =
  kind :: ExecutorKind
  node :: "AbstractPlan option"
  executor_context :: "nat option"
  children :: "nat list"

text \<open>
  Modelled from the spec: the tiles are declared outside this file. A base tile is the
  sequence of its tuples in storage order, as \<open>TupleIterator::Next\<close> yields them; a logical
  tile gives the base tile pointer of each of its columns.
\<close>

type_synonym Tile = "Tuple list"

datatype LogicalTile = LogicalTile (GetBaseTile: "nat \<Rightarrow> Tile option")

record Peloton_Status =
  m_result :: Result
  m_result_slots :: "TupleTableSlot list"

text \<open>
  The calls that leave this file, in the order in which they are made; a call of a method
  of an executor is recorded with what it returned.
\<close>

datatype call =
    Call_GetPGTransaction TransactionId
  | Call_StartPGTransaction TransactionId
  | Call_CommitTransaction TransactionId
  | Call_AbortTransaction TransactionId
  | Call_SetResult TransactionId Result
  | Call_Init nat bool
  | Call_Execute nat bool
  | Call_GetOutput nat "LogicalTile option"
  | Call_delete nat

text \<open>
  The state a call of this file works on: the heap of executors (a freed cell is \<open>None\<close>),
  the contexts allocated so far, the transaction manager's table (the identifiers it has a
  transaction for, and the \<open>Result\<close> field of each transaction), the trace of calls, and the
  private state of the operators and of the storage layer.
\<close>

record 'x world =
  executors :: "AbstractExecutor option list"
  contexts :: "ExecutorContext list"
  txn_known :: "TransactionId set"
  txn_result :: "TransactionId \<Rightarrow> Result"
  calls :: "call list"
  opstate :: 'x

datatype error = NullPointerDereference | InvalidPointer | AssertionFailure

text \<open>
  What this file takes from its collaborators: the conversion of the parameter list, the
  three virtual methods of an executor, and the conversion of a tuple into a slot of the
  host. A method of an executor sees and may change the \<open>Result\<close> of the transaction it runs
  under and the private state.
\<close>

record 'x externals =
  BuildParams :: "ParamListInfo \<Rightarrow> ValueArray"
  Init :: "nat \<Rightarrow> Result \<times> 'x \<Rightarrow> bool \<times> Result \<times> 'x"
  Execute :: "nat \<Rightarrow> Result \<times> 'x \<Rightarrow> bool \<times> Result \<times> 'x"
  GetOutput :: "nat \<Rightarrow> Result \<times> 'x \<Rightarrow> LogicalTile option \<times> Result \<times> 'x"
  GetPostgresTuple :: "Tuple \<Rightarrow> TupleDesc \<Rightarrow> TupleTableSlot option"

subsection \<open>The store\<close>

definition deref :: "nat \<Rightarrow> 'x world \<Rightarrow> AbstractExecutor option" where
  "deref a w = (if a < length (executors w) then executors w ! a else None)"

definition new_ExecutorContext :: "TransactionId \<Rightarrow> ValueArray \<Rightarrow> 'x world \<Rightarrow> nat \<times> 'x world" where
  "new_ExecutorContext txn params w =
     (length (contexts w),
      w\<lparr>contexts := contexts w @ [\<lparr>ctx_txn = txn, ctx_params = params\<rparr>]\<rparr>)"

definition new_Executor ::
  "ExecutorKind \<Rightarrow> AbstractPlan option \<Rightarrow> nat option \<Rightarrow> 'x world \<Rightarrow> nat \<times> 'x world" where
  "new_Executor k plan ctx w =
     (length (executors w),
      w\<lparr>executors := executors w @
          [Some \<lparr>kind = k, node = plan, executor_context = ctx, children = []\<rparr>]\<rparr>)"

definition AddChild :: "nat \<Rightarrow> nat \<Rightarrow> 'x world \<Rightarrow> error + 'x world" where
  "AddChild parent child w =
     (case deref parent w of
        None \<Rightarrow> Inl InvalidPointer
      | Some e \<Rightarrow>
          Inr (w\<lparr>executors := (executors w)[parent := Some (e\<lparr>children := children e @ [child]\<rparr>)]\<rparr>))"

section \<open>BuildExecutorTree\<close>

text \<open>The switch on the tag: the class of executor constructed, if any.\<close>

fun executor_for :: "PlanNodeType \<Rightarrow> ExecutorKind option" where
  "executor_for PLAN_NODE_TYPE_INVALID = None"
| "executor_for PLAN_NODE_TYPE_SEQSCAN = Some SeqScanExecutor"
| "executor_for PLAN_NODE_TYPE_INDEXSCAN = Some IndexScanExecutor"
| "executor_for PLAN_NODE_TYPE_INSERT = Some InsertExecutor"
| "executor_for PLAN_NODE_TYPE_DELETE = Some DeleteExecutor"
| "executor_for PLAN_NODE_TYPE_UPDATE = Some UpdateExecutor"
| "executor_for PLAN_NODE_TYPE_LIMIT = Some LimitExecutor"
| "executor_for PLAN_NODE_TYPE_NESTLOOP = Some NestedLoopJoinExecutor"
| "executor_for PLAN_NODE_TYPE_MERGEJOIN = Some MergeJoinExecutor"
| "executor_for PLAN_NODE_TYPE_PROJECTION = Some ProjectionExecutor"
| "executor_for PLAN_NODE_TYPE_MATERIALIZE = Some MaterializationExecutor"
| "executor_for PLAN_NODE_TYPE_AGGREGATE_V2 = Some AggregateExecutor"
| "executor_for PLAN_NODE_TYPE_ORDERBY = Some OrderByExecutor"
| "executor_for (PLAN_NODE_TYPE_OTHER n) = None"

text \<open>
  \<open>BuildExecutorTree\<close> and, as \<open>BuildChildren\<close>, its loop over the children, which threads
  \<open>child_executor\<close> from one iteration to the next.
\<close>

fun BuildExecutorTree ::
  "'x externals \<Rightarrow> nat option \<Rightarrow> AbstractPlan option \<Rightarrow> ParamListInfo \<Rightarrow> TransactionId \<Rightarrow>
     'x world \<Rightarrow> error + ('x world \<times> nat option)"
and BuildChildren ::
  "'x externals \<Rightarrow> nat option \<Rightarrow> AbstractPlan option list \<Rightarrow> ParamListInfo \<Rightarrow> TransactionId \<Rightarrow>
     'x world \<Rightarrow> error + ('x world \<times> nat option)"
where
  "BuildExecutorTree ext root None param_list txn w = Inr (w, root)"
| "BuildExecutorTree ext root (Some (AbstractPlan plan_node_type plan_children)) param_list txn w =
     (let plan = AbstractPlan plan_node_type plan_children;
          params = BuildParams ext param_list;
          (executor_context, w1) = new_ExecutorContext txn params w;
          (child_executor, w2) =
            (case executor_for plan_node_type of
               None \<Rightarrow> (None, w1)
             | Some k \<Rightarrow>
                 (let (e, w') = new_Executor k (Some plan) (Some executor_context) w1
                  in (Some e, w')));
          attached =
            (case child_executor of
               None \<Rightarrow> Inr (w2, root)
             | Some e \<Rightarrow>
                 (case root of
                    Some r \<Rightarrow> (case AddChild r e w2 of Inl er \<Rightarrow> Inl er | Inr w' \<Rightarrow> Inr (w', root))
                  | None \<Rightarrow> Inr (w2, child_executor)))
      in case attached of
           Inl er \<Rightarrow> Inl er
         | Inr (w3, root') \<Rightarrow>
             (case BuildChildren ext child_executor plan_children param_list txn w3 of
                Inl er \<Rightarrow> Inl er
              | Inr (w4, child_executor') \<Rightarrow> Inr (w4, root')))"
| "BuildChildren ext child_executor [] param_list txn w = Inr (w, child_executor)"
| "BuildChildren ext child_executor (child # rest) param_list txn w =
     (case BuildExecutorTree ext child_executor child param_list txn w of
        Inl er \<Rightarrow> Inl er
      | Inr (w', child_executor') \<Rightarrow> BuildChildren ext child_executor' rest param_list txn w')"

section \<open>CleanExecutorTree\<close>

definition delete_Executor :: "nat \<Rightarrow> 'x world \<Rightarrow> error + 'x world" where
  "delete_Executor a w =
     (case deref a w of
        None \<Rightarrow> Inl InvalidPointer
      | Some e \<Rightarrow> Inr (w\<lparr>executors := (executors w)[a := None], calls := calls w @ [Call_delete a]\<rparr>))"

text \<open>
  The recursion follows the pointers of the store, which need not form a tree, so it is
  bounded by its depth: the first argument is the number of nested calls allowed, and
  \<open>None\<close> says that they did not suffice. \<open>CleanChildren\<close> is the loop over the copy of the
  vector of children.
\<close>

fun CleanExecutorTree :: "nat \<Rightarrow> nat option \<Rightarrow> 'x world \<Rightarrow> (error + 'x world) option"
and CleanChildren :: "nat \<Rightarrow> nat list \<Rightarrow> 'x world \<Rightarrow> (error + 'x world) option"
where
  "CleanExecutorTree depth None w = Some (Inr w)"
| "CleanExecutorTree 0 (Some root) w = None"
| "CleanExecutorTree (Suc depth) (Some root) w =
     (case deref root w of
        None \<Rightarrow> Some (Inl InvalidPointer)
      | Some e \<Rightarrow>
          (case CleanChildren depth (children e) w of
             None \<Rightarrow> None
           | Some (Inl er) \<Rightarrow> Some (Inl er)
           | Some (Inr w') \<Rightarrow> Some (delete_Executor root w')))"
| "CleanChildren depth [] w = Some (Inr w)"
| "CleanChildren depth (child # rest) w =
     (case CleanExecutorTree depth (Some child) w of
        None \<Rightarrow> None
      | Some (Inl er) \<Rightarrow> Some (Inl er)
      | Some (Inr w') \<Rightarrow> CleanChildren depth rest w')"

section \<open>AddMaterialization\<close>

fun wrapped_by_AddMaterialization :: "PlanNodeType \<Rightarrow> bool" where
  "wrapped_by_AddMaterialization PLAN_NODE_TYPE_MERGEJOIN = True"
| "wrapped_by_AddMaterialization PLAN_NODE_TYPE_NESTLOOP = True"
| "wrapped_by_AddMaterialization PLAN_NODE_TYPE_SEQSCAN = True"
| "wrapped_by_AddMaterialization PLAN_NODE_TYPE_INDEXSCAN = True"
| "wrapped_by_AddMaterialization PLAN_NODE_TYPE_LIMIT = True"
| "wrapped_by_AddMaterialization ty = False"

definition AddMaterialization :: "nat option \<Rightarrow> 'x world \<Rightarrow> error + ('x world \<times> nat option)" where
  "AddMaterialization root w =
     (case root of
        None \<Rightarrow> Inr (w, root)
      | Some r \<Rightarrow>
          (case deref r w of
             None \<Rightarrow> Inl InvalidPointer
           | Some e \<Rightarrow>
               (case node e of
                  None \<Rightarrow> Inl NullPointerDereference
                | Some raw_node \<Rightarrow>
                    if wrapped_by_AddMaterialization (GetPlanNodeType raw_node) then
                      (let (new_root, w1) = new_Executor MaterializationExecutor None None w
                       in case AddChild new_root r w1 of
                            Inl er \<Rightarrow> Inl er
                          | Inr w2 \<Rightarrow> Inr (w2, Some new_root))
                    else Inr (w, root))))"

section \<open>The transaction manager\<close>

text \<open>
  Modelled from the spec: the transaction manager is outside this file. It offers
  \<open>lookup(id) -> handle|absent\<close>, \<open>begin(id) -> handle\<close>, \<open>commit(handle)\<close>, \<open>abort(handle)\<close>,
  \<open>getResult(handle)\<close> and \<open>setResult(handle, r)\<close>. A commit or an abort is recorded in the
  trace of calls; what else it does to the transaction is not this file's.
\<close>

definition GetPGTransaction :: "TransactionId \<Rightarrow> 'x world \<Rightarrow> TransactionId option \<times> 'x world" where
  "GetPGTransaction txn_id w =
     (if txn_id \<in> txn_known w then Some txn_id else None,
      w\<lparr>calls := calls w @ [Call_GetPGTransaction txn_id]\<rparr>)"

definition StartPGTransaction :: "TransactionId \<Rightarrow> 'x world \<Rightarrow> TransactionId \<times> 'x world" where
  "StartPGTransaction txn_id w =
     (txn_id,
      w\<lparr>txn_known := insert txn_id (txn_known w),
        calls := calls w @ [Call_StartPGTransaction txn_id]\<rparr>)"

definition GetResult :: "TransactionId \<Rightarrow> 'x world \<Rightarrow> Result" where
  "GetResult txn w = txn_result w txn"

definition SetResult :: "TransactionId \<Rightarrow> Result \<Rightarrow> 'x world \<Rightarrow> 'x world" where
  "SetResult txn r w =
     w\<lparr>txn_result := (txn_result w)(txn := r), calls := calls w @ [Call_SetResult txn r]\<rparr>"

definition CommitTransaction :: "TransactionId \<Rightarrow> 'x world \<Rightarrow> 'x world" where
  "CommitTransaction txn w = w\<lparr>calls := calls w @ [Call_CommitTransaction txn]\<rparr>"

definition AbortTransaction :: "TransactionId \<Rightarrow> 'x world \<Rightarrow> 'x world" where
  "AbortTransaction txn w = w\<lparr>calls := calls w @ [Call_AbortTransaction txn]\<rparr>"

section \<open>ExecutePlan\<close>

text \<open>
  A call of a virtual method through a pointer to an executor: the pointer is
  dereferenced, the method runs on the \<open>Result\<close> of the transaction and on the private
  state, and the call is recorded with its result.
\<close>

definition call_method ::
  "(nat \<Rightarrow> Result \<times> 'x \<Rightarrow> 'r \<times> Result \<times> 'x) \<Rightarrow> (nat \<Rightarrow> 'r \<Rightarrow> call) \<Rightarrow> nat option \<Rightarrow> TransactionId \<Rightarrow>
     'x world \<Rightarrow> error + ('r \<times> 'x world)" where
  "call_method method c ptr txn w =
     (case ptr of
        None \<Rightarrow> Inl NullPointerDereference
      | Some a \<Rightarrow>
          (case deref a w of
             None \<Rightarrow> Inl InvalidPointer
           | Some e \<Rightarrow>
               (let (r, res, x) = method a (txn_result w txn, opstate w)
                in Inr (r, w\<lparr>txn_result := (txn_result w)(txn := res), opstate := x,
                             calls := calls w @ [c a r]\<rparr>))))"

text \<open>The inner loop: \<open>while (tile_itr.Next(tuple))\<close> over the tuples of the base tile.\<close>

fun get_result_slots ::
  "'x externals \<Rightarrow> TupleDesc \<Rightarrow> Tile \<Rightarrow> TupleTableSlot list \<Rightarrow> TupleTableSlot list" where
  "get_result_slots ext tuple_desc [] slots = slots"
| "get_result_slots ext tuple_desc (tuple # rest) slots =
     (case GetPostgresTuple ext tuple tuple_desc of
        None \<Rightarrow> get_result_slots ext tuple_desc rest slots
      | Some slot \<Rightarrow> get_result_slots ext tuple_desc rest (slots @ [slot]))"

text \<open>
  The outer loop \<open>for (;;)\<close>. Nothing bounds the number of its rounds, so the model counts
  them down from its second argument, and \<open>None\<close> says that the loop was still running when
  they were used up. A null base tile fails the assertion. The switches of the memory
  context around the inner loop have no part in the result and are left out.
\<close>

fun ExecutePlan_loop ::
  "'x externals \<Rightarrow> nat \<Rightarrow> nat option \<Rightarrow> TupleDesc \<Rightarrow> TransactionId \<Rightarrow> TupleTableSlot list \<Rightarrow>
     'x world \<Rightarrow> (error + (TupleTableSlot list \<times> 'x world)) option" where
  "ExecutePlan_loop ext 0 executor_tree tuple_desc txn slots w = None"
| "ExecutePlan_loop ext (Suc rounds) executor_tree tuple_desc txn slots w =
     (case call_method (Execute ext) Call_Execute executor_tree txn w of
        Inl er \<Rightarrow> Some (Inl er)
      | Inr (status, w1) \<Rightarrow>
          if status = False then Some (Inr (slots, w1))
          else
            (case call_method (GetOutput ext) Call_GetOutput executor_tree txn w1 of
               Inl er \<Rightarrow> Some (Inl er)
             | Inr (tile, w2) \<Rightarrow>
                 (case tile of
                    None \<Rightarrow> ExecutePlan_loop ext rounds executor_tree tuple_desc txn slots w2
                  | Some t \<Rightarrow>
                      (case GetBaseTile t 0 of
                         None \<Rightarrow> Some (Inl AssertionFailure)
                       | Some base_tile \<Rightarrow>
                           ExecutePlan_loop ext rounds executor_tree tuple_desc txn
                             (get_result_slots ext tuple_desc base_tile slots) w2))))"

text \<open>The block "should we commit or abort ?" after the label \<open>cleanup\<close>.\<close>

definition commit_or_abort :: "bool \<Rightarrow> bool \<Rightarrow> TransactionId \<Rightarrow> 'x world \<Rightarrow> 'x world" where
  "commit_or_abort single_statement_txn init_failure txn w =
     (if single_statement_txn = True \<or> init_failure = True then
        (case GetResult txn w of
           RESULT_SUCCESS \<Rightarrow> CommitTransaction txn w
         | RESULT_FAILURE \<Rightarrow> AbortTransaction txn w
         | RESULT_OTHER n \<Rightarrow> AbortTransaction txn w)
      else w)"

text \<open>Everything from the label \<open>cleanup\<close> to the return.\<close>

definition cleanup ::
  "nat \<Rightarrow> bool \<Rightarrow> bool \<Rightarrow> TransactionId \<Rightarrow> nat option \<Rightarrow> Peloton_Status \<Rightarrow> 'x world \<Rightarrow>
     (error + (Peloton_Status \<times> 'x world)) option" where
  "cleanup fuel single_statement_txn init_failure txn executor_tree pstatus w =
     (case CleanExecutorTree fuel executor_tree
             (commit_or_abort single_statement_txn init_failure txn w) of
        None \<Rightarrow> None
      | Some (Inl er) \<Rightarrow> Some (Inl er)
      | Some (Inr w') \<Rightarrow> Some (Inr (pstatus\<lparr>m_result := GetResult txn w'\<rparr>, w')))"

text \<open>The lookup of the transaction, which starts one when there is none.\<close>

definition get_or_start_txn :: "TransactionId \<Rightarrow> 'x world \<Rightarrow> bool \<times> TransactionId \<times> 'x world" where
  "get_or_start_txn txn_id w =
     (let (found, w1) = GetPGTransaction txn_id w
      in case found of
           None \<Rightarrow> (let (txn, w2) = StartPGTransaction txn_id w1 in (True, txn, w2))
         | Some txn \<Rightarrow> (False, txn, w1))"

text \<open>
  \<open>ExecutePlan\<close>. The second argument bounds the rounds of the pull loop and the depth of
  the teardown. The result is \<open>None\<close> when the bound did not suffice, \<open>Some (Inl e)\<close> when the
  call ran into undefined behaviour or a failed assertion, and otherwise the status
  structure and the state as the call leaves them.
\<close>

definition ExecutePlan ::
  "'x externals \<Rightarrow> nat \<Rightarrow> AbstractPlan option \<Rightarrow> ParamListInfo \<Rightarrow> TupleDesc \<Rightarrow> Peloton_Status \<Rightarrow>
     TransactionId \<Rightarrow> 'x world \<Rightarrow> (error + (Peloton_Status \<times> 'x world)) option" where
  "ExecutePlan ext fuel plan param_list tuple_desc pstatus txn_id w =
     (case plan of
        None \<Rightarrow> Some (Inr (pstatus, w))
      | Some p \<Rightarrow>
          (let (single_statement_txn, txn, w1) = get_or_start_txn txn_id w
           in case BuildExecutorTree ext None plan param_list txn w1 of
                Inl er \<Rightarrow> Some (Inl er)
              | Inr (w2, built) \<Rightarrow>
                  (case AddMaterialization built w2 of
                     Inl er \<Rightarrow> Some (Inl er)
                   | Inr (w3, executor_tree) \<Rightarrow>
                       (case call_method (Init ext) Call_Init executor_tree txn w3 of
                          Inl er \<Rightarrow> Some (Inl er)
                        | Inr (status, w4) \<Rightarrow>
                            if status = False then
                              cleanup fuel single_statement_txn True txn executor_tree pstatus
                                (SetResult txn RESULT_FAILURE w4)
                            else
                              (case ExecutePlan_loop ext fuel executor_tree tuple_desc txn [] w4 of
                                 None \<Rightarrow> None
                               | Some (Inl er) \<Rightarrow> Some (Inl er)
                               | Some (Inr (slots, w5)) \<Rightarrow>
                                   cleanup fuel single_statement_txn False txn executor_tree
                                     (pstatus\<lparr>m_result_slots := slots\<rparr>) w5)))))"

section \<open>Notions used to state the properties\<close>

subsection \<open>Plan trees\<close>

text \<open>The number of plan nodes under a pointer; a null pointer is no node.\<close>

fun count_plan :: "AbstractPlan option \<Rightarrow> nat"
and count_plans :: "AbstractPlan option list \<Rightarrow> nat"
where
  "count_plan None = 0"
| "count_plan (Some (AbstractPlan ty cs)) = Suc (count_plans cs)"
| "count_plans [] = 0"
| "count_plans (c # cs) = count_plan c + count_plans cs"

text \<open>A pointer to a node for whose tag the switch constructs an executor.\<close>

fun supported :: "AbstractPlan option \<Rightarrow> bool" where
  "supported None = False"
| "supported (Some p) = (executor_for (GetPlanNodeType p) \<noteq> None)"

text \<open>The number of nodes with such a tag: the executors that a compilation allocates.\<close>

fun n_exec :: "AbstractPlan option \<Rightarrow> nat"
and n_execs :: "AbstractPlan option list \<Rightarrow> nat"
where
  "n_exec None = 0"
| "n_exec (Some (AbstractPlan ty cs)) = (if executor_for ty = None then 0 else 1) + n_execs cs"
| "n_execs [] = 0"
| "n_execs (c # cs) = n_exec c + n_execs cs"

text \<open>Every node of the plan has a tag for which an executor is constructed.\<close>

fun all_supported :: "AbstractPlan \<Rightarrow> bool"
and all_supported_list :: "AbstractPlan option list \<Rightarrow> bool"
where
  "all_supported (AbstractPlan ty cs) = (executor_for ty \<noteq> None \<and> all_supported_list cs)"
| "all_supported_list [] = True"
| "all_supported_list (None # cs) = all_supported_list cs"
| "all_supported_list (Some c # cs) = (all_supported c \<and> all_supported_list cs)"

subsection \<open>Operator trees in the store\<close>

text \<open>A tree of addresses: the address of an operator and the trees of its children.\<close>

datatype ExecTree = ExecTree (root_addr: nat) (subtrees: "ExecTree list")

text \<open>The addresses of a tree, every child's before its parent's.\<close>

fun postorder :: "ExecTree \<Rightarrow> nat list"
and postorders :: "ExecTree list \<Rightarrow> nat list"
where
  "postorder (ExecTree a ts) = postorders ts @ [a]"
| "postorders [] = []"
| "postorders (t # ts) = postorder t @ postorders ts"

text \<open>
  The store holds the tree: every address of it is a live executor whose vector of
  children is the roots of the subtrees, in order.
\<close>

fun tree_at :: "'x world \<Rightarrow> ExecTree \<Rightarrow> bool"
and trees_at :: "'x world \<Rightarrow> ExecTree list \<Rightarrow> bool"
where
  "tree_at w (ExecTree a ts) =
     (case deref a w of
        None \<Rightarrow> False
      | Some e \<Rightarrow> children e = map root_addr ts \<and> trees_at w ts)"
| "trees_at w [] = True"
| "trees_at w (t # ts) = (tree_at w t \<and> trees_at w ts)"

text \<open>The state after the executors at the given addresses were deleted, in that order.\<close>

fun free_all :: "nat list \<Rightarrow> 'x world \<Rightarrow> 'x world" where
  "free_all [] w = w"
| "free_all (a # as) w =
     free_all as (w\<lparr>executors := (executors w)[a := None], calls := calls w @ [Call_delete a]\<rparr>)"

text \<open>
  The store holds the tree and the tree mirrors the plan: the operators correspond one to
  one to the nodes of the plan, children in the same order, and every operator is of the
  class of its node's tag and refers back to that node.
\<close>

fun mirrors :: "'x world \<Rightarrow> ExecTree \<Rightarrow> AbstractPlan \<Rightarrow> bool"
and mirrors_list :: "'x world \<Rightarrow> ExecTree list \<Rightarrow> AbstractPlan option list \<Rightarrow> bool"
where
  "mirrors w (ExecTree a ts) (AbstractPlan ty cs) =
     (case deref a w of
        None \<Rightarrow> False
      | Some e \<Rightarrow>
          executor_for ty = Some (kind e) \<and> node e = Some (AbstractPlan ty cs) \<and>
          children e = map root_addr ts \<and> mirrors_list w ts cs)"
| "mirrors_list w ts [] = (ts = [])"
| "mirrors_list w ts (None # cs) = mirrors_list w ts cs"
| "mirrors_list w [] (Some c # cs) = False"
| "mirrors_list w (t # ts) (Some c # cs) = (mirrors w t c \<and> mirrors_list w ts cs)"

text \<open>
  The tree that a compilation of the plan lays out from address \<open>n\<close> on: executors are
  allocated at consecutive addresses in pre-order, one for every node with a supported tag,
  and a child is attached to its parent when both tags are supported.
\<close>

fun layout :: "nat \<Rightarrow> AbstractPlan \<Rightarrow> ExecTree"
and layouts :: "nat \<Rightarrow> AbstractPlan option list \<Rightarrow> ExecTree list"
where
  "layout n (AbstractPlan ty cs) = ExecTree n (layouts (Suc n) cs)"
| "layouts n [] = []"
| "layouts n (None # cs) = layouts n cs"
| "layouts n (Some c # cs) =
     (if supported (Some c) then [layout n c] else []) @ layouts (n + n_exec (Some c)) cs"

text \<open>
  The store holds the tree, and the tree is the compiled form of the plan: as \<open>mirrors\<close>,
  but a child with an unsupported tag has no operator.
\<close>

fun compiled :: "'x world \<Rightarrow> ExecTree \<Rightarrow> AbstractPlan \<Rightarrow> bool"
and compiled_list :: "'x world \<Rightarrow> ExecTree list \<Rightarrow> AbstractPlan option list \<Rightarrow> bool"
where
  "compiled w (ExecTree a ts) (AbstractPlan ty cs) =
     (case deref a w of
        None \<Rightarrow> False
      | Some e \<Rightarrow>
          executor_for ty = Some (kind e) \<and> node e = Some (AbstractPlan ty cs) \<and>
          children e = map root_addr ts \<and> compiled_list w ts cs)"
| "compiled_list w ts [] = (ts = [])"
| "compiled_list w ts (None # cs) = compiled_list w ts cs"
| "compiled_list w ts (Some c # cs) =
     (if supported (Some c) then
        (case ts of [] \<Rightarrow> False | t # ts' \<Rightarrow> compiled w t c \<and> compiled_list w ts' cs)
      else compiled_list w ts cs)"

subsection \<open>Traces\<close>

fun is_commit_or_abort :: "call \<Rightarrow> bool" where
  "is_commit_or_abort (Call_CommitTransaction txn) = True"
| "is_commit_or_abort (Call_AbortTransaction txn) = True"
| "is_commit_or_abort c = False"

text \<open>The base tiles of the batches that the calls of \<open>GetOutput\<close> returned, in order.\<close>

fun pulled_tiles :: "call list \<Rightarrow> Tile list" where
  "pulled_tiles [] = []"
| "pulled_tiles (Call_GetOutput a (Some t) # cs) =
     (case GetBaseTile t 0 of None \<Rightarrow> pulled_tiles cs | Some base_tile \<Rightarrow> base_tile # pulled_tiles cs)"
| "pulled_tiles (c # cs) = pulled_tiles cs"

subsection \<open>The compiled root\<close>

text \<open>
  The tree that \<open>ExecutePlan\<close> runs for a plan whose root has a supported tag, compiled
  from address \<open>n\<close> on: the layout of the plan, under a materialization operator at the
  next free address when \<open>AddMaterialization\<close> wraps the tag of the root.
\<close>

definition materialized :: "nat \<Rightarrow> AbstractPlan \<Rightarrow> ExecTree" where
  "materialized n p =
     (if wrapped_by_AddMaterialization (GetPlanNodeType p)
      then ExecTree (n + n_exec (Some p)) [layout n p]
      else layout n p)"

text \<open>A pointer that is null or the address of a live executor.\<close>

definition root_ok :: "nat option \<Rightarrow> 'x world \<Rightarrow> bool" where
  "root_ok root w = (case root of None \<Rightarrow> True | Some r \<Rightarrow> deref r w \<noteq> None)"

subsection \<open>Intermediate states and invariants of the compilation\<close>

text \<open>The states after the allocation of a context, of an executor and of the wrapper.\<close>

definition with_context :: "'x externals \<Rightarrow> ParamListInfo \<Rightarrow> TransactionId \<Rightarrow> 'x world \<Rightarrow> 'x world" where
  "with_context ext pl txn w =
     w\<lparr>contexts := contexts w @ [\<lparr>ctx_txn = txn, ctx_params = BuildParams ext pl\<rparr>]\<rparr>"

definition with_executor :: "ExecutorKind \<Rightarrow> AbstractPlan \<Rightarrow> 'x world \<Rightarrow> 'x world" where
  "with_executor k p w =
     w\<lparr>executors := executors w @
        [Some \<lparr>kind = k, node = Some p, executor_context = Some (length (contexts w) - 1), children = []\<rparr>]\<rparr>"

definition with_materialization :: "nat \<Rightarrow> 'x world \<Rightarrow> 'x world" where
  "with_materialization r w =
     w\<lparr>executors := executors w @
        [Some \<lparr>kind = MaterializationExecutor, node = None, executor_context = None, children = [r]\<rparr>]\<rparr>"

text \<open>
  The store \<open>w'\<close> extends \<open>w\<close> by \<open>k\<close> executors; the executor at \<open>root\<close> got the children
  \<open>new\<close> appended, and no other executor of \<open>w\<close> changed.
\<close>

definition extends :: "'x world \<Rightarrow> nat option \<Rightarrow> nat list \<Rightarrow> nat \<Rightarrow> 'x world \<Rightarrow> bool" where
  "extends w root new k w' \<longleftrightarrow>
     length (executors w') = length (executors w) + k \<and>
     (\<forall>a < length (executors w). root \<noteq> Some a \<longrightarrow> deref a w' = deref a w) \<and>
     (\<forall>r e. root = Some r \<longrightarrow> deref r w = Some e \<longrightarrow>
        deref r w' = Some (e\<lparr>children := children e @ new\<rparr>))"

text \<open>What a call of \<open>BuildExecutorTree\<close>, and of its loop, establishes.\<close>

definition Build_ok ::
  "'x externals \<Rightarrow> ParamListInfo \<Rightarrow> TransactionId \<Rightarrow> nat option \<Rightarrow> AbstractPlan option \<Rightarrow> 'x world \<Rightarrow> bool" where
  "Build_ok ext pl txn root plan w \<longleftrightarrow>
     (root_ok root w \<longrightarrow>
       (\<exists>w'. BuildExecutorTree ext root plan pl txn w =
                Inr (w', case root of
                           Some r \<Rightarrow> Some r
                         | None \<Rightarrow> if supported plan then Some (length (executors w)) else None) \<and>
             extends w root (if supported plan then [length (executors w)] else []) (n_exec plan) w' \<and>
             (\<forall>p. plan = Some p \<longrightarrow> supported plan \<longrightarrow> compiled w' (layout (length (executors w)) p) p)))"

definition Children_ok ::
  "'x externals \<Rightarrow> ParamListInfo \<Rightarrow> TransactionId \<Rightarrow> nat option \<Rightarrow> AbstractPlan option list \<Rightarrow> 'x world \<Rightarrow> bool" where
  "Children_ok ext pl txn ce cs w \<longleftrightarrow>
     (root_ok ce w \<longrightarrow>
       (\<exists>w' ce'. BuildChildren ext ce cs pl txn w = Inr (w', ce') \<and>
             extends w ce (map root_addr (layouts (length (executors w)) cs)) (n_execs cs) w' \<and>
             (ce \<noteq> None \<longrightarrow> ce' = ce \<and> compiled_list w' (layouts (length (executors w)) cs) cs) \<and>
             (ce = None \<longrightarrow> root_ok ce' w' \<and> (\<forall>a. ce' = Some a \<longrightarrow> length (executors w) \<le> a))))"

text \<open>Apart from the store of executors, \<open>w'\<close> is \<open>w\<close> with \<open>k\<close> more contexts \<open>ctx\<close>.\<close>

definition same_but_store :: "ExecutorContext \<Rightarrow> nat \<Rightarrow> 'x world \<Rightarrow> 'x world \<Rightarrow> bool" where
  "same_but_store ctx k w w' \<longleftrightarrow>
     contexts w' = contexts w @ replicate k ctx \<and> calls w' = calls w \<and>
     txn_known w' = txn_known w \<and> txn_result w' = txn_result w \<and> opstate w' = opstate w"

text \<open>The calls of a round of the pull loop that does not end it.\<close>

fun loop_call :: "nat \<Rightarrow> call \<Rightarrow> bool" where
  "loop_call a (Call_Execute b status) = (b = a \<and> status = True)"
| "loop_call a (Call_GetOutput b tile) = (b = a)"
| "loop_call a c = False"

subsection \<open>Example inputs\<close>

text \<open>
  Operators over a counter: \<open>Init\<close> fails when the counter is 0; \<open>Execute\<close> counts and has
  output while the counter is below 3; \<open>GetOutput\<close> gives no batch at 2 and otherwise a
  batch of three tuples, the second of which has no representation in the host.
\<close>

definition example_tile :: LogicalTile where
  "example_tile = LogicalTile (\<lambda>column. Some [[1], [], [2]])"

definition example_externals :: "nat externals" where
  "example_externals =
     \<lparr>BuildParams = (\<lambda>param_list. param_list),
      Init = (\<lambda>a (r, x). (x \<noteq> 0, r, x)),
      Execute = (\<lambda>a (r, x). (x < 3, r, Suc x)),
      GetOutput = (\<lambda>a (r, x). (if x = 2 then None else Some example_tile, r, x)),
      GetPostgresTuple = (\<lambda>tuple tuple_desc. if tuple = [] then None else Some tuple)\<rparr>"

definition example_world :: "nat \<Rightarrow> nat world" where
  "example_world x =
     \<lparr>executors = [], contexts = [], txn_known = {}, txn_result = (\<lambda>txn. RESULT_SUCCESS),
      calls = [], opstate = x\<rparr>"

definition example_status :: Peloton_Status where
  "example_status = \<lparr>m_result = RESULT_OTHER 0, m_result_slots = []\<rparr>"

text \<open>A status structure that holds a slot of an earlier call.\<close>

definition example_stale_status :: Peloton_Status where
  "example_stale_status = \<lparr>m_result = RESULT_OTHER 0, m_result_slots = [[9]]\<rparr>"

definition example_scan :: AbstractPlan where
  "example_scan = AbstractPlan PLAN_NODE_TYPE_SEQSCAN []"

definition example_insert :: AbstractPlan where
  "example_insert =
     AbstractPlan PLAN_NODE_TYPE_INSERT [Some (AbstractPlan PLAN_NODE_TYPE_INVALID [])]"

text \<open>The state after the compilation of \<open>example_insert\<close> in \<open>example_world 1\<close>.\<close>

definition example_compiled :: "nat world" where
  "example_compiled =
     (example_world 1)
       \<lparr>executors := [Some \<lparr>kind = InsertExecutor, node = Some example_insert,
                             executor_context = Some 0, children = []\<rparr>],
        contexts := [\<lparr>ctx_txn = 7, ctx_params = []\<rparr>, \<lparr>ctx_txn = 7, ctx_params = []\<rparr>]\<rparr>"

text \<open>A store that holds a scan operator with one child.\<close>

definition example_store :: "nat world" where
  "example_store =
     (example_world 1)
       \<lparr>executors := [Some \<lparr>kind = SeqScanExecutor, node = Some example_scan,
                             executor_context = None, children = [1]\<rparr>,
                       Some \<lparr>kind = InsertExecutor, node = Some example_insert,
                             executor_context = None, children = []\<rparr>]\<rparr>"

section \<open>Lemmas about the store, the compilation, the teardown and the driver\<close>

subsection \<open>The store and the layout of a plan\<close>

lemma Build_unsupported:
  "executor_for ty = None \<Longrightarrow>
   BuildExecutorTree ext root (Some (AbstractPlan ty cs)) pl txn w =
     (case BuildChildren ext None cs pl txn (with_context ext pl txn w) of
        Inl er \<Rightarrow> Inl er
      | Inr (w4, ce) \<Rightarrow> Inr (w4, root))"
  by (simp add: new_ExecutorContext_def with_context_def Let_def split: sum.splits)

lemma Build_supported_None:
  "executor_for ty = Some k \<Longrightarrow>
   BuildExecutorTree ext None (Some (AbstractPlan ty cs)) pl txn w =
     (case BuildChildren ext (Some (length (executors w))) cs pl txn
             (with_executor k (AbstractPlan ty cs) (with_context ext pl txn w)) of
        Inl er \<Rightarrow> Inl er
      | Inr (w4, ce) \<Rightarrow> Inr (w4, Some (length (executors w))))"
  by (simp add: new_ExecutorContext_def new_Executor_def with_context_def with_executor_def Let_def split: sum.splits)

lemma Build_supported_Some:
  "executor_for ty = Some k \<Longrightarrow>
   BuildExecutorTree ext (Some r) (Some (AbstractPlan ty cs)) pl txn w =
     (case AddChild r (length (executors w))
             (with_executor k (AbstractPlan ty cs) (with_context ext pl txn w)) of
        Inl er \<Rightarrow> Inl er
      | Inr w3 \<Rightarrow>
          (case BuildChildren ext (Some (length (executors w))) cs pl txn w3 of
             Inl er \<Rightarrow> Inl er
           | Inr (w4, ce) \<Rightarrow> Inr (w4, Some r)))"
  by (simp add: new_ExecutorContext_def new_Executor_def with_context_def with_executor_def Let_def
      split: sum.splits)

lemma deref_Some_less: "deref a w = Some e \<Longrightarrow> a < length (executors w)"
  by (simp add: deref_def split: if_splits)

lemma deref_with_context [simp]: "deref a (with_context ext pl txn w) = deref a w"
  by (simp add: deref_def with_context_def)

lemma executors_with_context [simp]: "executors (with_context ext pl txn w) = executors w"
  by (simp add: with_context_def)

lemma length_with_executor [simp]:
  "length (executors (with_executor k p w)) = Suc (length (executors w))"
  by (simp add: with_executor_def)

lemma deref_with_executor:
  "deref a (with_executor k p w) =
     (if a = length (executors w)
      then Some \<lparr>kind = k, node = Some p, executor_context = Some (length (contexts w) - 1), children = []\<rparr>
      else deref a w)"
  by (simp add: deref_def with_executor_def nth_append)

lemma AddChild_Some:
  assumes "deref r w = Some e"
  shows "\<exists>w'. AddChild r c w = Inr w' \<and> length (executors w') = length (executors w) \<and>
           (\<forall>a. deref a w' = (if a = r then Some (e\<lparr>children := children e @ [c]\<rparr>) else deref a w))"
  using assms by (auto simp: AddChild_def deref_def split: if_splits)

lemma extends_refl: "extends w root [] 0 w"
  by (simp add: extends_def)

lemma extends_trans:
  assumes "extends w root new1 k1 w1" "extends w1 root new2 k2 w2" "root_ok root w"
  shows "extends w root (new1 @ new2) (k1 + k2) w2"
proof (cases root)
  case None
  with assms show ?thesis by (simp add: extends_def)
next
  case (Some r)
  with assms(3) obtain e where e: "deref r w = Some e"
    by (auto simp: root_ok_def)
  then have lt: "r < length (executors w)" by (rule deref_Some_less)
  from assms(1) Some e have e1: "deref r w1 = Some (e\<lparr>children := children e @ new1\<rparr>)"
    by (simp add: extends_def)
  from assms(2) Some e1 have e2: "deref r w2 = Some (e\<lparr>children := children e @ new1 @ new2\<rparr>)"
    by (simp add: extends_def)
  from assms(1,2) have len: "length (executors w2) = length (executors w) + (k1 + k2)"
    by (simp add: extends_def)
  have frame: "deref a w2 = deref a w" if "a < length (executors w)" "a \<noteq> r" for a
  proof -
    from that assms(1) Some have "deref a w1 = deref a w" by (simp add: extends_def)
    moreover from that assms(1,2) Some have "deref a w2 = deref a w1" by (simp add: extends_def)
    ultimately show ?thesis by simp
  qed
  from e e2 len frame Some show ?thesis
    by (simp add: extends_def)
qed

lemma extends_None_then:
  assumes "extends w None new1 k1 w1" "extends w1 ce new2 k2 w2"
    and "\<And>a. ce = Some a \<Longrightarrow> length (executors w) \<le> a"
  shows "extends w None new (k1 + k2) w2"
proof -
  have "deref a w2 = deref a w" if "a < length (executors w)" for a
  proof -
    from that assms(1) have 1: "deref a w1 = deref a w" by (simp add: extends_def)
    from that assms(3) have "ce \<noteq> Some a" by fastforce
    moreover from that assms(1) have "a < length (executors w1)" by (simp add: extends_def)
    ultimately have "deref a w2 = deref a w1" using assms(2) by (simp add: extends_def)
    with 1 show ?thesis by simp
  qed
  with assms(1,2) show ?thesis by (simp add: extends_def)
qed

lemma postorder_layout_bounds:
  shows "supported (Some p) \<Longrightarrow> set (postorder (layout n p)) \<subseteq> {n ..< n + n_exec (Some p)}"
    and "set (postorders (layouts n cs)) \<subseteq> {n ..< n + n_execs cs}"
proof (induction n p and n cs rule: layout_layouts.induct)
  case (1 n ty cs)
  then show ?case by (auto split: if_splits)
next
  case (2 n)
  then show ?case by simp
next
  case (3 n cs)
  then show ?case by simp
next
  case (4 n c cs)
  then show ?case by (cases c) (auto split: if_splits)
qed

lemma root_addr_layout [simp]: "root_addr (layout n p) = n"
  by (cases p) simp

lemma compiled_frame:
  shows "compiled w t p \<Longrightarrow> (\<And>a. a \<in> set (postorder t) \<Longrightarrow> deref a w' = deref a w) \<Longrightarrow> compiled w' t p"
    and "compiled_list w ts cs \<Longrightarrow> (\<And>a. a \<in> set (postorders ts) \<Longrightarrow> deref a w' = deref a w) \<Longrightarrow> compiled_list w' ts cs"
proof (induction w t p and w ts cs rule: compiled_compiled_list.induct)
  case (1 w a ts ty cs)
  then show ?case by (auto split: option.splits)
next
  case (2 w ts)
  then show ?case by simp
next
  case (3 w ts cs)
  then show ?case by simp
next
  case (4 w ts c cs)
  then show ?case by (cases ts) (auto split: if_splits)
qed

subsection \<open>The invariant of the compilation\<close>

lemma compiled_root_live: "compiled w t p \<Longrightarrow> deref (root_addr t) w \<noteq> None"
  by (cases t; cases p) (auto split: option.splits)

lemma Children_ok_all:
  assumes "\<And>c root w. c \<in> set cs \<Longrightarrow> Build_ok ext pl txn root c (w :: 'x world)"
  shows "Children_ok ext pl txn ce cs (w :: 'x world)"
  using assms
proof (induction cs arbitrary: ce w)
  case Nil
  show ?case by (auto simp: Children_ok_def extends_refl root_ok_def)
next
  case (Cons c rest ce w)
  let ?n = "length (executors w)"
  show ?case unfolding Children_ok_def
  proof
    assume ok: "root_ok ce w"
    have "Build_ok ext pl txn ce c w" by (rule Cons.prems) simp
    with ok obtain w1 where
      b1: "BuildExecutorTree ext ce c pl txn w =
             Inr (w1, case ce of Some r \<Rightarrow> Some r
                       | None \<Rightarrow> if supported c then Some ?n else None)"
      and e1: "extends w ce (if supported c then [?n] else []) (n_exec c) w1"
      and c1: "\<And>p. c = Some p \<Longrightarrow> supported c \<Longrightarrow> compiled w1 (layout ?n p) p"
      unfolding Build_ok_def by blast
    define ce1 where "ce1 = (case ce of Some r \<Rightarrow> Some r
                       | None \<Rightarrow> if supported c then Some ?n else None)"
    from e1 have len1: "length (executors w1) = ?n + n_exec c" by (simp add: extends_def)
    have ok1: "root_ok ce1 w1"
    proof (cases ce)
      case None
      show ?thesis
      proof (cases "supported c")
        case True
        then obtain p where p: "c = Some p" by (cases c) auto
        from c1[OF p True] have "deref ?n w1 \<noteq> None"
          using compiled_root_live by fastforce
        with None True show ?thesis by (simp add: ce1_def root_ok_def)
      next
        case False
        with None show ?thesis by (simp add: ce1_def root_ok_def)
      qed
    next
      case (Some r)
      with ok obtain e where "deref r w = Some e" by (auto simp: root_ok_def)
      with e1 Some have "deref r w1 \<noteq> None" by (simp add: extends_def)
      with Some show ?thesis by (simp add: ce1_def root_ok_def)
    qed
    have "Children_ok ext pl txn ce1 rest w1"
      by (rule Cons.IH) (rule Cons.prems, simp)
    with ok1 obtain w2 ce2 where
      b2: "BuildChildren ext ce1 rest pl txn w1 = Inr (w2, ce2)"
      and e2: "extends w1 ce1 (map root_addr (layouts (length (executors w1)) rest)) (n_execs rest) w2"
      and s2: "ce1 \<noteq> None \<Longrightarrow> ce2 = ce1 \<and> compiled_list w2 (layouts (length (executors w1)) rest) rest"
      and n2: "ce1 = None \<Longrightarrow> root_ok ce2 w2 \<and> (\<forall>a. ce2 = Some a \<longrightarrow> length (executors w1) \<le> a)"
      unfolding Children_ok_def by blast
    have run: "BuildChildren ext ce (c # rest) pl txn w = Inr (w2, ce2)"
      using b1 b2 by (simp add: ce1_def)
    have lay: "map root_addr (layouts ?n (c # rest)) =
        (if supported c then [?n] else []) @ map root_addr (layouts (?n + n_exec c) rest)"
      by (cases c) simp_all
    have ext_all: "extends w ce (map root_addr (layouts ?n (c # rest))) (n_execs (c # rest)) w2"
    proof (cases ce)
      case (Some r)
      then have "ce1 = ce" by (simp add: ce1_def)
      with e1 e2 ok len1 show ?thesis
        using extends_trans[of w ce _ "n_exec c" w1 _ "n_execs rest" w2]
        by (simp add: lay)
    next
      case None
      have "\<And>a. ce1 = Some a \<Longrightarrow> ?n \<le> a"
        using None by (auto simp: ce1_def split: if_splits)
      with e1 e2 None show ?thesis
        using extends_None_then[of w _ "n_exec c" w1 ce1 _ "n_execs rest" w2]
        by simp
    qed
    have some_case: "ce2 = ce \<and> compiled_list w2 (layouts ?n (c # rest)) (c # rest)" if "ce \<noteq> None"
    proof -
      from that obtain r where r: "ce = Some r" by auto
      then have ce1: "ce1 = Some r" by (simp add: ce1_def)
      with s2 have ce2: "ce2 = ce" and cl: "compiled_list w2 (layouts (?n + n_exec c) rest) rest"
        using r len1 by auto
      from ok r have rlt: "r < ?n" by (auto simp: root_ok_def dest: deref_Some_less)
      show ?thesis
      proof (cases c)
        case None
        with cl ce2 show ?thesis by simp
      next
        case (Some p)
        show ?thesis
        proof (cases "supported c")
          case False
          with Some cl ce2 show ?thesis by simp
        next
          case True
          have "compiled w2 (layout ?n p) p"
          proof (rule compiled_frame(1)[OF c1[OF Some True]])
            fix a assume "a \<in> set (postorder (layout ?n p))"
            with postorder_layout_bounds(1)[of p ?n] True Some
            have "?n \<le> a" "a < ?n + n_exec c" by auto
            with e2 ce1 rlt len1 show "deref a w2 = deref a w1"
              by (simp add: extends_def)
          qed
          with Some True cl ce2 show ?thesis by simp
        qed
      qed
    qed
    have none_case: "root_ok ce2 w2 \<and> (\<forall>a. ce2 = Some a \<longrightarrow> ?n \<le> a)" if "ce = None"
    proof (cases "ce1")
      case None
      with n2 len1 show ?thesis by auto
    next
      case (Some a)
      with that have a: "a = ?n" by (auto simp: ce1_def split: if_splits)
      from s2 Some have ce2: "ce2 = Some a" by simp
      from ok1 Some obtain e where "deref a w1 = Some e" by (auto simp: root_ok_def)
      with e2 Some have "deref a w2 \<noteq> None" by (simp add: extends_def)
      with ce2 a show ?thesis by (simp add: root_ok_def)
    qed
    from run ext_all some_case none_case
    show "\<exists>w' ce'. BuildChildren ext ce (c # rest) pl txn w = Inr (w', ce') \<and>
             extends w ce (map root_addr (layouts ?n (c # rest))) (n_execs (c # rest)) w' \<and>
             (ce \<noteq> None \<longrightarrow> ce' = ce \<and> compiled_list w' (layouts ?n (c # rest)) (c # rest)) \<and>
             (ce = None \<longrightarrow> root_ok ce' w' \<and> (\<forall>a. ce' = Some a \<longrightarrow> ?n \<le> a))"
      by blast
  qed
qed

lemma Build_ok_all: "Build_ok ext pl txn root plan (w :: 'x world)"
proof (cases plan)
  case None
  show ?thesis
    unfolding Build_ok_def None
    by (cases root) (simp_all add: extends_refl)
next
  case (Some p)
  have "Build_ok ext pl txn root (Some p) w"
  proof (induction p arbitrary: root w)
    case (AbstractPlan ty cs root w)
    have elems: "Build_ok ext pl txn root' c w'" if "c \<in> set cs" for c root' and w' :: "'x world"
    proof (cases c)
      case None
      show ?thesis unfolding Build_ok_def None
        by (cases root') (simp_all add: extends_refl)
    next
      case (Some p')
      with that show ?thesis using AbstractPlan.IH[of c p'] by simp
    qed
    have loop: "Children_ok ext pl txn ce cs w'" for ce and w' :: "'x world"
      by (rule Children_ok_all) (rule elems)
    let ?n = "length (executors w)"
    let ?p = "AbstractPlan ty cs"
    show ?case unfolding Build_ok_def
    proof
      assume ok: "root_ok root w"
      show "\<exists>w'. BuildExecutorTree ext root (Some ?p) pl txn w =
                Inr (w', case root of
                           Some r \<Rightarrow> Some r
                         | None \<Rightarrow> if supported (Some ?p) then Some ?n else None) \<and>
             extends w root (if supported (Some ?p) then [?n] else []) (n_exec (Some ?p)) w' \<and>
             (\<forall>p. Some ?p = Some p \<longrightarrow> supported (Some ?p) \<longrightarrow> compiled w' (layout ?n p) p)"
      proof (cases "executor_for ty")
        case None
        let ?w1 = "with_context ext pl txn w"
        from loop[of None ?w1] obtain w4 ce' where
          b: "BuildChildren ext None cs pl txn ?w1 = Inr (w4, ce')"
          and e: "extends ?w1 None (map root_addr (layouts ?n cs)) (n_execs cs) w4"
          unfolding Children_ok_def by (auto simp: root_ok_def)
        have run: "BuildExecutorTree ext root (Some ?p) pl txn w = Inr (w4, root)"
          unfolding Build_unsupported[OF None] b by simp
        have "extends w root [] (n_execs cs) w4"
          using e by (auto simp: extends_def dest: deref_Some_less)
        with run None show ?thesis
          by (cases root) auto
      next
        case (Some k)
        let ?w2 = "with_executor k ?p (with_context ext pl txn w)"
        let ?e0 = "\<lparr>kind = k, node = Some ?p,
                    executor_context = Some (length (contexts (with_context ext pl txn w)) - 1),
                    children = []\<rparr>"
        have d2: "deref a ?w2 = (if a = ?n then Some ?e0 else deref a w)" for a
          by (simp add: deref_with_executor)
        show ?thesis
        proof (cases root)
          case None
          from loop[of "Some ?n" ?w2] d2[of ?n] obtain w4 where
            b: "BuildChildren ext (Some ?n) cs pl txn ?w2 = Inr (w4, Some ?n)"
            and e: "extends ?w2 (Some ?n) (map root_addr (layouts (Suc ?n) cs)) (n_execs cs) w4"
            and cl: "compiled_list w4 (layouts (Suc ?n) cs) cs"
            unfolding Children_ok_def by (auto simp: root_ok_def)
          have run: "BuildExecutorTree ext None (Some ?p) pl txn w = Inr (w4, Some ?n)"
            unfolding Build_supported_None[OF Some] b by simp
          from e d2[of ?n] have dn: "deref ?n w4 =
              Some (?e0\<lparr>children := map root_addr (layouts (Suc ?n) cs)\<rparr>)"
            by (simp add: extends_def)
          have ex: "extends w None [?n] (Suc (n_execs cs)) w4"
            using e d2 by (auto simp: extends_def)
          have "compiled w4 (layout ?n ?p) ?p"
            using dn cl Some by simp
          with run ex None Some show ?thesis by simp
        next
          case (Some r)
          note root = Some
          from ok root obtain e where er: "deref r w = Some e" by (auto simp: root_ok_def)
          then have rlt: "r < ?n" by (rule deref_Some_less)
          with er d2[of r] have "deref r ?w2 = Some e" by simp
          from AddChild_Some[OF this, of ?n] obtain w3 where
            a3: "AddChild r ?n ?w2 = Inr w3"
            and l3: "length (executors w3) = Suc ?n"
            and d3: "\<And>a. deref a w3 = (if a = r then Some (e\<lparr>children := children e @ [?n]\<rparr>) else deref a ?w2)"
            by auto
          from rlt d3[of ?n] d2[of ?n] have d3n: "deref ?n w3 = Some ?e0" by simp
          from loop[of "Some ?n" w3] d3n l3 obtain w4 where
            b: "BuildChildren ext (Some ?n) cs pl txn w3 = Inr (w4, Some ?n)"
            and e4: "extends w3 (Some ?n) (map root_addr (layouts (Suc ?n) cs)) (n_execs cs) w4"
            and cl: "compiled_list w4 (layouts (Suc ?n) cs) cs"
            unfolding Children_ok_def by (auto simp: root_ok_def)
          have run: "BuildExecutorTree ext (Some r) (Some ?p) pl txn w = Inr (w4, Some r)"
            unfolding Build_supported_Some[OF \<open>executor_for ty = Some k\<close>] a3 using b by simp
          from e4 d3n have dn: "deref ?n w4 =
              Some (?e0\<lparr>children := map root_addr (layouts (Suc ?n) cs)\<rparr>)"
            by (simp add: extends_def)
          have fr: "deref a w4 = deref a w3" if "a < ?n" for a
            using e4 l3 that by (simp add: extends_def)
          have ex: "extends w (Some r) [?n] (Suc (n_execs cs)) w4"
            unfolding extends_def
          proof (intro conjI allI impI)
            show "length (executors w4) = ?n + Suc (n_execs cs)"
              using e4 l3 by (simp add: extends_def)
          next
            fix a assume "a < ?n" "Some r \<noteq> Some a"
            then show "deref a w4 = deref a w"
              using fr[of a] d3[of a] d2[of a] by auto
          next
            fix r' e' assume "Some r = Some r'" "deref r' w = Some e'"
            then show "deref r' w4 = Some (e'\<lparr>children := children e' @ [?n]\<rparr>)"
              using fr[of r] d3[of r] er rlt by auto
          qed
          have "compiled w4 (layout ?n ?p) ?p"
            using dn cl \<open>executor_for ty = Some k\<close> by simp
          with run ex root \<open>executor_for ty = Some k\<close> show ?thesis by simp
        qed
      qed
    qed
  qed
  with Some show ?thesis by simp
qed

subsection \<open>What the compilation leaves unchanged\<close>

lemma same_but_store_trans:
  "same_but_store ctx k1 w w1 \<Longrightarrow> same_but_store ctx k2 w1 w2 \<Longrightarrow> same_but_store ctx (k1 + k2) w w2"
  by (simp add: same_but_store_def replicate_add)

lemma AddChild_fields:
  "AddChild r c w = Inr w' \<Longrightarrow> same_but_store ctx 0 w w'"
  by (auto simp: AddChild_def same_but_store_def split: option.splits)

lemma with_context_fields:
  "same_but_store \<lparr>ctx_txn = txn, ctx_params = BuildParams ext pl\<rparr> 1 w (with_context ext pl txn w)"
  by (simp add: same_but_store_def with_context_def)

lemma with_executor_fields: "same_but_store ctx 0 w (with_executor k p w)"
  by (simp add: same_but_store_def with_executor_def)

lemma Children_fields:
  assumes "\<And>c root w w' r. c \<in> set cs \<Longrightarrow>
             BuildExecutorTree ext root c pl txn (w :: 'x world) = Inr (w', r) \<Longrightarrow>
             same_but_store \<lparr>ctx_txn = txn, ctx_params = BuildParams ext pl\<rparr> (count_plan c) w w'"
  shows "BuildChildren ext ce cs pl txn (w :: 'x world) = Inr (w', r) \<Longrightarrow>
           same_but_store \<lparr>ctx_txn = txn, ctx_params = BuildParams ext pl\<rparr> (count_plans cs) w w'"
  using assms
proof (induction cs arbitrary: ce w w' r)
  case Nil
  then show ?case by (simp add: same_but_store_def)
next
  case (Cons c rest ce w w' r)
  from Cons.prems(1) obtain w1 ce1 where
    b1: "BuildExecutorTree ext ce c pl txn w = Inr (w1, ce1)"
    and b2: "BuildChildren ext ce1 rest pl txn w1 = Inr (w', r)"
    by (auto split: sum.splits)
  have f1: "same_but_store \<lparr>ctx_txn = txn, ctx_params = BuildParams ext pl\<rparr> (count_plan c) w w1"
    using Cons.prems(2)[OF _ b1] by simp
  have f2: "same_but_store \<lparr>ctx_txn = txn, ctx_params = BuildParams ext pl\<rparr> (count_plans rest) w1 w'"
    by (rule Cons.IH[OF b2]) (rule Cons.prems(2), simp_all)
  from same_but_store_trans[OF f1 f2] show ?case by simp
qed

lemma Build_fields:
  "BuildExecutorTree ext root plan pl txn (w :: 'x world) = Inr (w', r) \<Longrightarrow>
     same_but_store \<lparr>ctx_txn = txn, ctx_params = BuildParams ext pl\<rparr> (count_plan plan) w w'"
proof (cases plan)
  case None
  assume "BuildExecutorTree ext root plan pl txn w = Inr (w', r)"
  with None show ?thesis by (simp add: same_but_store_def)
next
  case (Some p)
  let ?ctx = "\<lparr>ctx_txn = txn, ctx_params = BuildParams ext pl\<rparr>"
  have "BuildExecutorTree ext root (Some p) pl txn w = Inr (w', r) \<Longrightarrow>
          same_but_store ?ctx (count_plan (Some p)) w w'"
  proof (induction p arbitrary: root w w' r)
    case (AbstractPlan ty cs root w w' r)
    have elems: "same_but_store ?ctx (count_plan c) v v'"
      if "c \<in> set cs" "BuildExecutorTree ext root' c pl txn v = Inr (v', r')"
      for c root' r' and v v' :: "'x world"
    proof (cases c)
      case None
      with that show ?thesis by (simp add: same_but_store_def)
    next
      case (Some p')
      with that show ?thesis using AbstractPlan.IH[of c p'] by simp
    qed
    have loop: "same_but_store ?ctx (count_plans cs) v v'"
      if "BuildChildren ext ce cs pl txn v = Inr (v', r')" for ce r' and v v' :: "'x world"
      using Children_fields[OF elems that] .
    show ?case
    proof (cases "executor_for ty")
      case None
      from AbstractPlan.prems obtain ce where
        "BuildChildren ext None cs pl txn (with_context ext pl txn w) = Inr (w', ce)"
        unfolding Build_unsupported[OF None] by (auto split: sum.splits)
      from same_but_store_trans[OF with_context_fields loop[OF this]]
      show ?thesis by simp
    next
      case (Some k)
      let ?w2 = "with_executor k (AbstractPlan ty cs) (with_context ext pl txn w)"
      have f2: "same_but_store ?ctx 1 w ?w2"
        using same_but_store_trans[OF with_context_fields with_executor_fields] by simp
      show ?thesis
      proof (cases root)
        case None
        from AbstractPlan.prems obtain ce where
          "BuildChildren ext (Some (length (executors w))) cs pl txn ?w2 = Inr (w', ce)"
          unfolding None Build_supported_None[OF Some] by (auto split: sum.splits)
        from same_but_store_trans[OF f2 loop[OF this]]
        show ?thesis by simp
      next
        case (Some r0)
        from AbstractPlan.prems obtain w3 ce where
          a: "AddChild r0 (length (executors w)) ?w2 = Inr w3"
          and b: "BuildChildren ext (Some (length (executors w))) cs pl txn w3 = Inr (w', ce)"
          unfolding Some Build_supported_Some[OF \<open>executor_for ty = Some k\<close>]
          by (auto split: sum.splits)
        from same_but_store_trans[OF same_but_store_trans[OF f2 AddChild_fields[OF a]] loop[OF b]]
        show ?thesis by simp
      qed
    qed
  qed
  with Some show "BuildExecutorTree ext root plan pl txn w = Inr (w', r) \<Longrightarrow> ?thesis" by simp
qed

subsection \<open>Compiled trees\<close>

lemma compiled_tree_at:
  shows "compiled w t p \<Longrightarrow> tree_at w t"
    and "compiled_list w ts cs \<Longrightarrow> trees_at w ts"
proof (induction w t p and w ts cs rule: compiled_compiled_list.induct)
  case (1 w a ts ty cs)
  then show ?case by (auto split: option.splits)
next
  case (2 w ts)
  then show ?case by simp
next
  case (3 w ts cs)
  then show ?case by simp
next
  case (4 w ts c cs)
  then show ?case by (cases ts) (auto split: if_splits)
qed

lemma compiled_mirrors:
  shows "compiled w t p \<Longrightarrow> all_supported p \<Longrightarrow> mirrors w t p"
    and "compiled_list w ts cs \<Longrightarrow> all_supported_list cs \<Longrightarrow> mirrors_list w ts cs"
proof (induction w t p and w ts cs rule: compiled_compiled_list.induct)
  case (1 w a ts ty cs)
  then show ?case by (auto split: option.splits)
next
  case (2 w ts)
  then show ?case by simp
next
  case (3 w ts cs)
  then show ?case by simp
next
  case (4 w ts c cs)
  then show ?case by (cases ts; cases c) (auto split: if_splits)
qed

lemma all_supported_n_exec:
  shows "all_supported p \<Longrightarrow> n_exec (Some p) = count_plan (Some p)"
    and "all_supported_list cs \<Longrightarrow> n_execs cs = count_plans cs"
  by (induction p and cs rule: all_supported_all_supported_list.induct) auto

lemma length_postorder_layout:
  shows "supported (Some p) \<Longrightarrow> length (postorder (layout n p)) \<le> n_exec (Some p)"
    and "length (postorders (layouts n cs)) \<le> n_execs cs"
  by (induction n p and n cs rule: layout_layouts.induct) (auto split: if_splits)

lemma all_supported_supported: "all_supported p \<Longrightarrow> supported (Some p)"
  by (cases p) simp

lemma all_supported_length_postorder:
  shows "all_supported p \<Longrightarrow> length (postorder (layout n p)) = count_plan (Some p)"
    and "all_supported_list cs \<Longrightarrow> length (postorders (layouts n cs)) = count_plans cs"
proof (induction n p and n cs rule: layout_layouts.induct)
  case (4 n c cs)
  then show ?case
    using all_supported_supported[of c] all_supported_n_exec(1)[of c]
    by (simp del: n_exec.simps count_plan.simps supported.simps)
qed simp_all

lemma distinct_postorder_layout:
  shows "supported (Some p) \<Longrightarrow> distinct (postorder (layout n p))"
    and "distinct (postorders (layouts n cs))"
proof (induction n p and n cs rule: layout_layouts.induct)
  case (1 n ty cs)
  with postorder_layout_bounds(2)[of "Suc n" cs] show ?case by auto
next
  case (2 n)
  then show ?case by simp
next
  case (3 n cs)
  then show ?case by simp
next
  case (4 n c cs)
  show ?case
  proof (cases "supported (Some c)")
    case True
    have "set (postorder (layout n c)) \<inter> set (postorders (layouts (n + n_exec (Some c)) cs)) = {}"
      using postorder_layout_bounds(1)[OF True, of n]
        postorder_layout_bounds(2)[of "n + n_exec (Some c)" cs]
      by fastforce
    with 4 True show ?thesis by (simp del: n_exec.simps supported.simps)
  next
    case False
    with 4 show ?thesis by simp
  qed
qed

subsection \<open>The teardown of a tree\<close>

lemma free_all_append: "free_all (as @ bs) w = free_all bs (free_all as w)"
  by (induction as arbitrary: w) simp_all

lemma deref_free_all: "deref a (free_all as w) = (if a \<in> set as then None else deref a w)"
proof (induction as arbitrary: w)
  case Nil
  show ?case by simp
next
  case (Cons b as w)
  show ?case
    by (simp add: Cons.IH) (auto simp: deref_def)
qed

lemma free_all_fields:
  "contexts (free_all as w) = contexts w \<and> txn_known (free_all as w) = txn_known w \<and>
   txn_result (free_all as w) = txn_result w \<and> opstate (free_all as w) = opstate w \<and>
   calls (free_all as w) = calls w @ map Call_delete as \<and>
   length (executors (free_all as w)) = length (executors w)"
  by (induction as arbitrary: w) simp_all

lemma tree_at_frame:
  shows "tree_at w t \<Longrightarrow> (\<And>a. a \<in> set (postorder t) \<Longrightarrow> deref a w' = deref a w) \<Longrightarrow> tree_at w' t"
    and "trees_at w ts \<Longrightarrow> (\<And>a. a \<in> set (postorders ts) \<Longrightarrow> deref a w' = deref a w) \<Longrightarrow> trees_at w' ts"
proof (induction w t and w ts rule: tree_at_trees_at.induct)
  case (1 w a ts)
  then show ?case by (auto split: option.splits)
next
  case (2 w)
  then show ?case by simp
next
  case (3 w t ts)
  then show ?case by auto
qed

lemma delete_Executor_live:
  "deref a w = Some e \<Longrightarrow> delete_Executor a w = Inr (free_all [a] w)"
  by (simp add: delete_Executor_def)

lemma Clean_tree:
  shows "tree_at w t \<Longrightarrow> distinct (postorder t) \<Longrightarrow> length (postorder t) \<le> depth \<Longrightarrow>
           CleanExecutorTree depth (Some (root_addr t)) w = Some (Inr (free_all (postorder t) w))"
    and "trees_at w ts \<Longrightarrow> distinct (postorders ts) \<Longrightarrow> length (postorders ts) \<le> depth \<Longrightarrow>
           CleanChildren depth (map root_addr ts) w = Some (Inr (free_all (postorders ts) w))"
proof (induction t and ts arbitrary: w depth and w depth rule: postorder_postorders.induct)
  case (1 a ts w depth)
  from "1.prems"(3) obtain d where d: "depth = Suc d" by (cases depth) auto
  from "1.prems"(1) obtain e where e: "deref a w = Some e"
    and ch: "children e = map root_addr ts" and ts: "trees_at w ts"
    by (auto split: option.splits)
  from "1.prems"(2) have dist: "distinct (postorders ts)" and notin: "a \<notin> set (postorders ts)"
    by auto
  from "1.prems"(3) d have len: "length (postorders ts) \<le> d" by simp
  have loop: "CleanChildren d (map root_addr ts) w = Some (Inr (free_all (postorders ts) w))"
    by (rule "1.IH"[OF ts dist len])
  have "deref a (free_all (postorders ts) w) = Some e"
    using e notin by (simp add: deref_free_all)
  then have "delete_Executor a (free_all (postorders ts) w) = Inr (free_all [a] (free_all (postorders ts) w))"
    by (rule delete_Executor_live)
  with e ch loop d show ?case
    by (simp add: free_all_append)
next
  case (2 w depth)
  show ?case by simp
next
  case (3 t ts w depth)
  from "3.prems" have t: "tree_at w t" and ts: "trees_at w ts"
    and dt: "distinct (postorder t)" and dts: "distinct (postorders ts)"
    and disj: "set (postorder t) \<inter> set (postorders ts) = {}"
    and lt: "length (postorder t) \<le> depth" and lts: "length (postorders ts) \<le> depth"
    by auto
  have first: "CleanExecutorTree depth (Some (root_addr t)) w = Some (Inr (free_all (postorder t) w))"
    by (rule "3.IH"(1)[OF t dt lt])
  have "trees_at (free_all (postorder t) w) ts"
  proof (rule tree_at_frame(2)[OF ts])
    fix a assume "a \<in> set (postorders ts)"
    with disj show "deref a (free_all (postorder t) w) = deref a w"
      by (auto simp: deref_free_all)
  qed
  from "3.IH"(2)[OF this dts lts] first show ?case
    by (simp add: free_all_append)
qed

subsection \<open>The pull loop, and the teardown of any store\<close>

lemma call_method_Inr:
  assumes "call_method m c ptr txn w = Inr (r, w')"
  shows "\<exists>a. ptr = Some a \<and> deref a w \<noteq> None \<and> r = fst (m a (txn_result w txn, opstate w)) \<and>
           calls w' = calls w @ [c a r] \<and> executors w' = executors w \<and>
           contexts w' = contexts w \<and> txn_known w' = txn_known w"
  using assms
  by (auto simp: call_method_def Let_def split: option.splits prod.splits)

lemma get_result_slots_eq:
  "get_result_slots ext tuple_desc tile slots =
     slots @ List.map_filter (\<lambda>tuple. GetPostgresTuple ext tuple tuple_desc) tile"
  by (induction tile arbitrary: slots) (auto simp: List.map_filter_simps split: option.splits)

lemma ExecutePlan_loop_trace:
  assumes "ExecutePlan_loop ext rounds tree tuple_desc txn slots w = Some (Inr (slots', w'))"
  shows "\<exists>a tr. tree = Some a \<and> calls w' = calls w @ tr @ [Call_Execute a False] \<and>
           list_all (loop_call a) tr \<and>
           slots' = slots @ concat (map (List.map_filter (\<lambda>tuple. GetPostgresTuple ext tuple tuple_desc))
                              (pulled_tiles tr)) \<and>
           executors w' = executors w \<and> contexts w' = contexts w \<and> txn_known w' = txn_known w"
  using assms
proof (induction rounds arbitrary: slots w)
  case 0
  then show ?case by simp
next
  case (Suc rounds slots w)
  from Suc.prems obtain status w1 where
    ex: "call_method (Execute ext) Call_Execute tree txn w = Inr (status, w1)"
    by (auto split: sum.splits)
  from call_method_Inr[OF ex] obtain a where a: "tree = Some a"
    and c1: "calls w1 = calls w @ [Call_Execute a status]"
    and f1: "executors w1 = executors w" "contexts w1 = contexts w" "txn_known w1 = txn_known w"
    by auto
  show ?case
  proof (cases status)
    case False
    with Suc.prems ex have "slots' = slots" "w' = w1" by auto
    with a c1 f1 False show ?thesis by auto
  next
    case True
    with Suc.prems ex obtain tile w2 where
      go: "call_method (GetOutput ext) Call_GetOutput tree txn w1 = Inr (tile, w2)"
      by (auto split: sum.splits)
    from call_method_Inr[OF go] a have
      c2: "calls w2 = calls w1 @ [Call_GetOutput a tile]"
      and f2: "executors w2 = executors w1" "contexts w2 = contexts w1" "txn_known w2 = txn_known w1"
      by auto
    show ?thesis
    proof (cases tile)
      case None
      with Suc.prems ex go True have
        "ExecutePlan_loop ext rounds tree tuple_desc txn slots w2 = Some (Inr (slots', w'))"
        by simp
      from Suc.IH[OF this] a obtain tr where
        "calls w' = calls w2 @ tr @ [Call_Execute a False]" "list_all (loop_call a) tr"
        "slots' = slots @ concat (map (List.map_filter (\<lambda>tuple. GetPostgresTuple ext tuple tuple_desc))
                              (pulled_tiles tr))"
        "executors w' = executors w2" "contexts w' = contexts w2" "txn_known w' = txn_known w2"
        by auto
      with a c1 c2 f1 f2 True None show ?thesis
        by (intro exI[of _ a] exI[of _ "Call_Execute a True # Call_GetOutput a None # tr"]) simp
    next
      case (Some t)
      with Suc.prems ex go True obtain base_tile where
        bt: "GetBaseTile t 0 = Some base_tile"
        and rest: "ExecutePlan_loop ext rounds tree tuple_desc txn
                     (get_result_slots ext tuple_desc base_tile slots) w2 = Some (Inr (slots', w'))"
        by (auto split: option.splits)
      from Suc.IH[OF rest] a obtain tr where
        "calls w' = calls w2 @ tr @ [Call_Execute a False]" "list_all (loop_call a) tr"
        "slots' = get_result_slots ext tuple_desc base_tile slots @
            concat (map (List.map_filter (\<lambda>tuple. GetPostgresTuple ext tuple tuple_desc))
                              (pulled_tiles tr))"
        "executors w' = executors w2" "contexts w' = contexts w2" "txn_known w' = txn_known w2"
        by auto
      with a c1 c2 f1 f2 True Some bt show ?thesis
        by (intro exI[of _ a] exI[of _ "Call_Execute a True # Call_GetOutput a (Some t) # tr"])
           (simp add: get_result_slots_eq)
    qed
  qed
qed

lemma Clean_free_all:
  shows "CleanExecutorTree depth root w = Some (Inr w') \<Longrightarrow> \<exists>as. w' = free_all as w"
    and "CleanChildren depth cs w = Some (Inr w') \<Longrightarrow> \<exists>as. w' = free_all as w"
proof (induction depth root w and depth cs w arbitrary: w' and w'
    rule: CleanExecutorTree_CleanChildren.induct)
  case (1 depth w)
  then have "w' = free_all [] w" by simp
  then show ?case by blast
next
  case (2 root w)
  then show ?case by simp
next
  case (3 depth root w)
  from "3.prems" obtain e w1 where e: "deref root w = Some e"
    and l: "CleanChildren depth (children e) w = Some (Inr w1)"
    and d: "delete_Executor root w1 = Inr w'"
    by (auto split: option.splits sum.splits)
  from "3.IH"[OF e l] obtain as where as: "w1 = free_all as w" by blast
  from d have "w' = free_all [root] w1"
    by (auto simp: delete_Executor_def split: option.splits)
  with as have "w' = free_all (as @ [root]) w" by (simp add: free_all_append)
  then show ?case by blast
next
  case (4 depth w)
  then have "w' = free_all [] w" by simp
  then show ?case by blast
next
  case (5 depth child rest w)
  from "5.prems" obtain w1 where f: "CleanExecutorTree depth (Some child) w = Some (Inr w1)"
    and r: "CleanChildren depth rest w1 = Some (Inr w')"
    by (auto split: option.splits sum.splits)
  from "5.IH"(1)[OF f] obtain as where as: "w1 = free_all as w" by blast
  from "5.IH"(2)[OF f refl r] obtain bs where "w' = free_all bs w1" by blast
  with as have "w' = free_all (as @ bs) w" by (simp add: free_all_append)
  then show ?case by blast
qed

subsection \<open>The steps of ExecutePlan\<close>

lemma get_or_start_txn_eq:
  "get_or_start_txn txn_id w =
     (txn_id \<notin> txn_known w, txn_id,
      w\<lparr>txn_known := insert txn_id (txn_known w),
        calls := calls w @ Call_GetPGTransaction txn_id #
                   (if txn_id \<in> txn_known w then [] else [Call_StartPGTransaction txn_id])\<rparr>)"
  by (auto simp: get_or_start_txn_def GetPGTransaction_def StartPGTransaction_def insert_absorb)

lemma commit_or_abort_eq:
  "commit_or_abort single_statement_txn init_failure txn w =
     w\<lparr>calls := calls w @
          (if single_statement_txn \<or> init_failure
           then [if txn_result w txn = RESULT_SUCCESS then Call_CommitTransaction txn
                 else Call_AbortTransaction txn]
           else [])\<rparr>"
  by (cases "txn_result w txn")
     (simp_all add: commit_or_abort_def GetResult_def CommitTransaction_def AbortTransaction_def)

lemma cleanup_Inr:
  assumes "cleanup fuel sst initf txn tree ps w = Some (Inr (ps', w'))"
  shows "\<exists>as. w' = free_all as (commit_or_abort sst initf txn w) \<and>
              ps' = ps\<lparr>m_result := txn_result w txn\<rparr>"
proof (cases "CleanExecutorTree fuel tree (commit_or_abort sst initf txn w)")
  case None
  with assms show ?thesis by (simp add: cleanup_def)
next
  case (Some res)
  show ?thesis
  proof (cases res)
    case (Inl er)
    with assms Some show ?thesis by (simp add: cleanup_def)
  next
    case (Inr v)
    from assms have "ps' = ps\<lparr>m_result := GetResult txn v\<rparr> \<and> w' = v"
      unfolding cleanup_def Some Inr by auto
    then have r: "ps' = ps\<lparr>m_result := GetResult txn v\<rparr>" and v: "w' = v"
      by blast+
    from Some Inr have c: "CleanExecutorTree fuel tree (commit_or_abort sst initf txn w) = Some (Inr v)"
      by simp
    from Clean_free_all(1)[OF c] obtain as where as: "v = free_all as (commit_or_abort sst initf txn w)"
      by blast
    have "GetResult txn v = txn_result w txn"
      unfolding as GetResult_def by (simp add: free_all_fields commit_or_abort_eq)
    with r v as show ?thesis by auto
  qed
qed

lemma ExecutePlan_Some:
  "ExecutePlan ext fuel (Some p) pl td ps txn_id w =
     (case get_or_start_txn txn_id w of (sst, txn, w1) \<Rightarrow>
      case BuildExecutorTree ext None (Some p) pl txn w1 of
        Inl er \<Rightarrow> Some (Inl er)
      | Inr (w2, built) \<Rightarrow>
          (case AddMaterialization built w2 of
             Inl er \<Rightarrow> Some (Inl er)
           | Inr (w3, tree) \<Rightarrow>
               (case call_method (Init ext) Call_Init tree txn w3 of
                  Inl er \<Rightarrow> Some (Inl er)
                | Inr (status, w4) \<Rightarrow>
                    if status = False then
                      cleanup fuel sst True txn tree ps (SetResult txn RESULT_FAILURE w4)
                    else
                      (case ExecutePlan_loop ext fuel tree td txn [] w4 of
                         None \<Rightarrow> None
                       | Some (Inl er) \<Rightarrow> Some (Inl er)
                       | Some (Inr (slots, w5)) \<Rightarrow>
                           cleanup fuel sst False txn tree (ps\<lparr>m_result_slots := slots\<rparr>) w5))))"
  unfolding ExecutePlan_def by (simp only: option.case Let_def)

lemma ExecutePlan_normalE:
  assumes "ExecutePlan ext fuel (Some p) pl td ps txn_id w = Some (Inr (ps', w'))"
  obtains sst txn w1 w2 built w3 tree status w4 ps4 w5 where
    "get_or_start_txn txn_id w = (sst, txn, w1)"
    "BuildExecutorTree ext None (Some p) pl txn w1 = Inr (w2, built)"
    "AddMaterialization built w2 = Inr (w3, tree)"
    "call_method (Init ext) Call_Init tree txn w3 = Inr (status, w4)"
    "status = False \<longrightarrow> ps4 = ps \<and> w5 = SetResult txn RESULT_FAILURE w4"
    "status = True \<longrightarrow> (\<exists>slots. ExecutePlan_loop ext fuel tree td txn [] w4 = Some (Inr (slots, w5)) \<and>
                           ps4 = ps\<lparr>m_result_slots := slots\<rparr>)"
    "cleanup fuel sst (\<not> status) txn tree ps4 w5 = Some (Inr (ps', w'))"
proof -
  obtain sst txn w1 where g: "get_or_start_txn txn_id w = (sst, txn, w1)"
    by (metis prod_cases3)
  from assms g obtain w2 built where b: "BuildExecutorTree ext None (Some p) pl txn w1 = Inr (w2, built)"
    unfolding ExecutePlan_Some by (auto split: sum.splits)
  from assms g b obtain w3 tree where m: "AddMaterialization built w2 = Inr (w3, tree)"
    unfolding ExecutePlan_Some by (auto split: sum.splits)
  from assms g b m obtain status w4 where i: "call_method (Init ext) Call_Init tree txn w3 = Inr (status, w4)"
    unfolding ExecutePlan_Some by (auto split: sum.splits)
  show thesis
  proof (cases status)
    case False
    with assms g b m i have "cleanup fuel sst True txn tree ps (SetResult txn RESULT_FAILURE w4) = Some (Inr (ps', w'))"
      unfolding ExecutePlan_Some by simp
    with g b m i False show thesis
      by (intro that[of sst txn w1 w2 built w3 tree status w4 ps "SetResult txn RESULT_FAILURE w4"]) simp_all
  next
    case True
    with assms g b m i obtain slots w5 where
      l: "ExecutePlan_loop ext fuel tree td txn [] w4 = Some (Inr (slots, w5))"
      and c: "cleanup fuel sst False txn tree (ps\<lparr>m_result_slots := slots\<rparr>) w5 = Some (Inr (ps', w'))"
      unfolding ExecutePlan_Some by (auto split: option.splits sum.splits)
    with g b m i True show thesis
      by (intro that[of sst txn w1 w2 built w3 tree status w4 "ps\<lparr>m_result_slots := slots\<rparr>" w5]) simp_all
  qed
qed

lemma AddMaterialization_fields:
  assumes "AddMaterialization root w = Inr (w', r)"
  shows "calls w' = calls w \<and> contexts w' = contexts w \<and> txn_known w' = txn_known w \<and>
         txn_result w' = txn_result w \<and> opstate w' = opstate w"
  using assms
  by (auto simp: AddMaterialization_def new_Executor_def AddChild_def Let_def
      split: option.splits if_splits sum.splits)

lemma filter_loop_calls:
  "list_all (loop_call a) tr \<Longrightarrow> filter is_commit_or_abort tr = [] \<and> Call_Init b st \<notin> set tr"
proof (induction tr)
  case Nil
  show ?case by simp
next
  case (Cons c tr)
  then show ?case by (cases c) auto
qed

lemma filter_deletes:
  "filter is_commit_or_abort (map Call_delete as) = [] \<and> Call_Init b st \<notin> set (map Call_delete as)"
  by (induction as) auto

subsection \<open>Compilation followed by AddMaterialization\<close>

lemma wrapped_by_AddMaterialization_iff:
  "wrapped_by_AddMaterialization ty \<longleftrightarrow>
     ty \<in> {PLAN_NODE_TYPE_MERGEJOIN, PLAN_NODE_TYPE_NESTLOOP, PLAN_NODE_TYPE_SEQSCAN,
           PLAN_NODE_TYPE_INDEXSCAN, PLAN_NODE_TYPE_LIMIT}"
  by (cases ty) simp_all

lemma AddMaterialization_Some:
  assumes "deref r w = Some e" "node e = Some raw_node"
  shows "AddMaterialization (Some r) w =
           (if wrapped_by_AddMaterialization (GetPlanNodeType raw_node)
            then Inr (with_materialization r w, Some (length (executors w)))
            else Inr (w, Some r))"
  using assms
  by (simp add: AddMaterialization_def new_Executor_def AddChild_def deref_def
      with_materialization_def)

lemma deref_with_materialization:
  "deref a (with_materialization r w) =
     (if a = length (executors w)
      then Some \<lparr>kind = MaterializationExecutor, node = None, executor_context = None, children = [r]\<rparr>
      else deref a w)"
  by (simp add: deref_def with_materialization_def nth_append)

lemma compiled_root_node:
  "compiled w t p \<Longrightarrow> \<exists>e. deref (root_addr t) w = Some e \<and> node e = Some p"
  by (cases t; cases p) (auto split: option.splits)

lemma Build_None_supported:
  assumes "supported (Some p)"
  shows "\<exists>w2. BuildExecutorTree ext None (Some p) pl txn w = Inr (w2, Some (length (executors w))) \<and>
           compiled w2 (layout (length (executors w)) p) p \<and>
           length (executors w2) = length (executors w) + n_exec (Some p) \<and>
           (\<forall>a < length (executors w). deref a w2 = deref a w) \<and>
           same_but_store \<lparr>ctx_txn = txn, ctx_params = BuildParams ext pl\<rparr> (count_plan (Some p)) w w2"
proof -
  have "Build_ok ext pl txn None (Some p) w" by (rule Build_ok_all)
  with assms obtain w2 where
    b: "BuildExecutorTree ext None (Some p) pl txn w = Inr (w2, Some (length (executors w)))"
    and e: "extends w None [length (executors w)] (n_exec (Some p)) w2"
    and c: "compiled w2 (layout (length (executors w)) p) p"
    unfolding Build_ok_def root_ok_def by auto
  from Build_fields[OF b] e c b show ?thesis
    by (auto simp: extends_def)
qed

lemma materialized_tree:
  assumes "supported (Some p)"
  shows "\<exists>w2 w3. BuildExecutorTree ext None (Some p) pl txn w = Inr (w2, Some (length (executors w))) \<and>
           AddMaterialization (Some (length (executors w))) w2 =
             Inr (w3, Some (root_addr (materialized (length (executors w)) p))) \<and>
           tree_at w3 (materialized (length (executors w)) p) \<and>
           calls w3 = calls w \<and> txn_known w3 = txn_known w \<and> txn_result w3 = txn_result w \<and>
           opstate w3 = opstate w"
proof -
  let ?n = "length (executors w)"
  from Build_None_supported[OF assms, of ext pl txn w] obtain w2 where
    b: "BuildExecutorTree ext None (Some p) pl txn w = Inr (w2, Some ?n)"
    and c: "compiled w2 (layout ?n p) p"
    and l: "length (executors w2) = ?n + n_exec (Some p)"
    and f: "same_but_store \<lparr>ctx_txn = txn, ctx_params = BuildParams ext pl\<rparr> (count_plan (Some p)) w w2"
    by blast
  from compiled_root_node[OF c] obtain e where e: "deref ?n w2 = Some e" "node e = Some p"
    by auto
  note m = AddMaterialization_Some[OF e]
  have t2: "tree_at w2 (layout ?n p)" by (rule compiled_tree_at(1)[OF c])
  show ?thesis
  proof (cases "wrapped_by_AddMaterialization (GetPlanNodeType p)")
    case False
    with b m t2 f show ?thesis
      by (auto simp: materialized_def same_but_store_def)
  next
    case True
    let ?w3 = "with_materialization ?n w2"
    have "tree_at ?w3 (layout ?n p)"
    proof (rule tree_at_frame(1)[OF t2])
      fix a assume "a \<in> set (postorder (layout ?n p))"
      with postorder_layout_bounds(1)[OF assms, of ?n] l
      show "deref a ?w3 = deref a w2"
        by (auto simp: deref_with_materialization)
    qed
    then have "tree_at ?w3 (ExecTree (?n + n_exec (Some p)) [layout ?n p])"
      using l by (simp add: deref_with_materialization)
    moreover have "calls ?w3 = calls w2 \<and> txn_known ?w3 = txn_known w2 \<and>
        txn_result ?w3 = txn_result w2 \<and> opstate ?w3 = opstate w2"
      by (simp add: with_materialization_def)
    ultimately show ?thesis
      using True b m f l
      by (auto simp: materialized_def same_but_store_def)
  qed
qed

lemma materialized_postorder:
  assumes "supported (Some p)"
  shows "distinct (postorder (materialized n p)) \<and>
         length (postorder (materialized n p)) \<le> Suc (n_exec (Some p))"
proof -
  have "n + n_exec (Some p) \<notin> set (postorder (layout n p))"
    using postorder_layout_bounds(1)[OF assms, of n] by auto
  with distinct_postorder_layout(1)[OF assms, of n] length_postorder_layout(1)[OF assms, of n]
  show ?thesis by (simp add: materialized_def)
qed

lemma n_exec_le_count:
  shows "n_exec plan \<le> count_plan plan" and "n_execs cs \<le> count_plans cs"
  by (induction plan and cs rule: n_exec_n_execs.induct) auto

subsection \<open>Calls through a live pointer\<close>

lemma tree_at_root_live: "tree_at w t \<Longrightarrow> \<exists>e. deref (root_addr t) w = Some e"
  by (cases t) (auto split: option.splits)

lemma tree_at_same_executors:
  assumes "tree_at w t" "executors w' = executors w"
  shows "tree_at w' t"
  by (rule tree_at_frame(1)[OF assms(1)]) (simp add: deref_def assms(2))

lemma call_method_eq:
  assumes "deref a w = Some e"
  shows "call_method m c (Some a) txn w =
           Inr (fst (m a (txn_result w txn, opstate w)),
                w\<lparr>txn_result := (txn_result w)(txn := fst (snd (m a (txn_result w txn, opstate w)))),
                  opstate := snd (snd (m a (txn_result w txn, opstate w))),
                  calls := calls w @ [c a (fst (m a (txn_result w txn, opstate w)))]\<rparr>)"
  using assms by (simp add: call_method_def Let_def split: prod.splits)

subsection \<open>The calls of a normal return\<close>

lemma ExecutePlan_new_calls:
  assumes "ExecutePlan ext fuel (Some p) pl td ps txn_id w = Some (Inr (ps', w'))"
  shows "\<exists>a status tr as.
           calls w' = calls w @ Call_GetPGTransaction txn_id #
             (if txn_id \<in> txn_known w then [] else [Call_StartPGTransaction txn_id]) @
             Call_Init a status # tr @
             (if txn_id \<notin> txn_known w \<or> \<not> status
              then [if m_result ps' = RESULT_SUCCESS then Call_CommitTransaction txn_id
                    else Call_AbortTransaction txn_id]
              else []) @
             map Call_delete as \<and>
           (if status then \<exists>tr'. tr = tr' @ [Call_Execute a False] \<and> list_all (loop_call a) tr'
            else tr = [Call_SetResult txn_id RESULT_FAILURE] \<and> m_result ps' = RESULT_FAILURE)"
proof -
  from assms obtain sst txn w1 w2 built w3 tree status w4 ps4 w5 where
    g: "get_or_start_txn txn_id w = (sst, txn, w1)"
    and b: "BuildExecutorTree ext None (Some p) pl txn w1 = Inr (w2, built)"
    and m: "AddMaterialization built w2 = Inr (w3, tree)"
    and i: "call_method (Init ext) Call_Init tree txn w3 = Inr (status, w4)"
    and f: "status = False \<longrightarrow> ps4 = ps \<and> w5 = SetResult txn RESULT_FAILURE w4"
    and t: "status = True \<longrightarrow> (\<exists>slots. ExecutePlan_loop ext fuel tree td txn [] w4 = Some (Inr (slots, w5)) \<and>
                           ps4 = ps\<lparr>m_result_slots := slots\<rparr>)"
    and c: "cleanup fuel sst (\<not> status) txn tree ps4 w5 = Some (Inr (ps', w'))"
    by (rule ExecutePlan_normalE) blast
  let ?start = "Call_GetPGTransaction txn_id #
             (if txn_id \<in> txn_known w then [] else [Call_StartPGTransaction txn_id])"
  from g have sst: "sst = (txn_id \<notin> txn_known w)" and txn: "txn = txn_id"
    and c1: "calls w1 = calls w @ ?start"
    by (auto simp: get_or_start_txn_eq)
  from Build_fields[OF b] have c2: "calls w2 = calls w1" by (simp add: same_but_store_def)
  from AddMaterialization_fields[OF m] have c3: "calls w3 = calls w2" by simp
  from call_method_Inr[OF i] obtain a where a: "tree = Some a"
    and c4: "calls w4 = calls w3 @ [Call_Init a status]"
    by auto
  from cleanup_Inr[OF c] obtain as where
    w': "w' = free_all as (commit_or_abort sst (\<not> status) txn w5)"
    and ps': "ps' = ps4\<lparr>m_result := txn_result w5 txn\<rparr>"
    by blast
  have c': "calls w' = calls w5 @
      (if sst \<or> \<not> status
       then [if m_result ps' = RESULT_SUCCESS then Call_CommitTransaction txn
             else Call_AbortTransaction txn]
       else []) @ map Call_delete as"
    unfolding w' ps' by (simp add: free_all_fields commit_or_abort_eq)
  show ?thesis
  proof (cases status)
    case False
    with f have w5: "w5 = SetResult txn RESULT_FAILURE w4" by simp
    then have c5: "calls w5 = calls w4 @ [Call_SetResult txn RESULT_FAILURE]"
      and r5: "txn_result w5 txn = RESULT_FAILURE"
      by (simp_all add: SetResult_def)
    from ps' r5 have "m_result ps' = RESULT_FAILURE" by simp
    with c' c5 c4 c3 c2 c1 False sst txn show ?thesis
      by (intro exI[of _ a] exI[of _ status] exI[of _ "[Call_SetResult txn_id RESULT_FAILURE]"]
          exI[of _ as]) simp
  next
    case True
    with t obtain slots where
      l: "ExecutePlan_loop ext fuel tree td txn [] w4 = Some (Inr (slots, w5))" by auto
    from ExecutePlan_loop_trace[OF l] a obtain tr where
      c5: "calls w5 = calls w4 @ tr @ [Call_Execute a False]" and tr: "list_all (loop_call a) tr"
      by auto
    with c' c4 c3 c2 c1 True sst txn show ?thesis
      by (intro exI[of _ a] exI[of _ status] exI[of _ "tr @ [Call_Execute a False]"]
          exI[of _ as]) simp
  qed
qed

subsection \<open>Evaluation of the examples\<close>

lemmas model_defs =
  ExecutePlan_def get_or_start_txn_def GetPGTransaction_def StartPGTransaction_def
  GetResult_def SetResult_def CommitTransaction_def AbortTransaction_def
  new_ExecutorContext_def new_Executor_def AddChild_def AddMaterialization_def deref_def
  call_method_def cleanup_def commit_or_abort_def delete_Executor_def Let_def

lemmas example_defs =
  example_externals_def example_world_def example_status_def example_scan_def
  example_insert_def example_tile_def

text \<open>
  A run of the example: a sequential scan with an implicit transaction. The scan is
  wrapped, the second pull delivers the batch, the rows come out in storage order without
  the one that has no representation, and the transaction is committed.
\<close>

lemma example_scan_run:
  "\<exists>w'. ExecutePlan example_externals 5 (Some example_scan) [] 0 example_status 7 (example_world 1) =
          Some (Inr (\<lparr>m_result = RESULT_SUCCESS, m_result_slots = [[1], [2]]\<rparr>, w')) \<and>
        calls w' =
             [Call_GetPGTransaction 7, Call_StartPGTransaction 7,
              Call_Init 1 True, Call_Execute 1 True, Call_GetOutput 1 None,
              Call_Execute 1 True, Call_GetOutput 1 (Some example_tile),
              Call_Execute 1 False, Call_CommitTransaction 7, Call_delete 0,
              Call_delete 1]"
  by (simp add: model_defs example_defs eval_nat_numeral)

subsection \<open>Further facts about traces and null roots\<close>

lemma pulled_tiles_append: "pulled_tiles (xs @ ys) = pulled_tiles xs @ pulled_tiles ys"
  by (induction xs rule: pulled_tiles.induct) (simp_all split: option.splits)

lemma loop_call_not_stop: "list_all (loop_call a) tr \<Longrightarrow> Call_Execute a False \<notin> set tr"
proof (induction tr)
  case Nil
  show ?case by simp
next
  case (Cons c tr)
  then show ?case by (cases c) auto
qed

lemma ExecutePlan_unsupported_root:
  assumes "\<not> supported (Some p)"
  shows "ExecutePlan ext fuel (Some p) param_list tuple_desc pstatus txn_id w =
           Some (Inl NullPointerDereference)"
proof -
  obtain sst txn w1 where g: "get_or_start_txn txn_id w = (sst, txn, w1)"
    by (metis prod_cases3)
  have "Build_ok ext param_list txn None (Some p) w1" by (rule Build_ok_all)
  with assms obtain w2 where
    b: "BuildExecutorTree ext None (Some p) param_list txn w1 = Inr (w2, None)"
    unfolding Build_ok_def root_ok_def by auto
  have m: "AddMaterialization None w2 = Inr (w2, None)"
    by (simp add: AddMaterialization_def)
  have i: "call_method (Init ext) Call_Init None txn w2 = Inl NullPointerDereference"
    by (simp add: call_method_def)
  show ?thesis
    unfolding ExecutePlan_Some g prod.case b sum.case m i by simp
qed

section \<open>The properties\<close>

text \<open>
  Claim C1 says that a plan of unsupported or invalid tags only compiles to a null
  operator tree, that the call then produces zero rows, and that the driver tests the
  compiled root for null before it calls \<open>Init\<close> or \<open>Execute\<close>. The code does the first and
  not the rest: for the plan that is a single node with the tag \<open>PLAN_NODE_TYPE_INVALID\<close>
  the compilation yields a null tree, \<open>AddMaterialization\<close> passes it on, and \<open>ExecutePlan\<close>
  calls \<open>Init\<close> through the null pointer, with no test before the call. The lemma
  \<open>ExecutePlan_unsupported_root\<close> above shows the same for every plan whose root has a tag
  without executor.
\<close>

theorem ExecutePlan_invalid_plan_null_dereference:
  "BuildExecutorTree ext None (Some (AbstractPlan PLAN_NODE_TYPE_INVALID [])) param_list txn_id
     (snd (snd (get_or_start_txn txn_id w))) =
     Inr (with_context ext param_list txn_id (snd (snd (get_or_start_txn txn_id w))), None) \<and>
   ExecutePlan ext fuel (Some (AbstractPlan PLAN_NODE_TYPE_INVALID [])) param_list tuple_desc
     pstatus txn_id w = Some (Inl NullPointerDereference)"
  by (simp add: ExecutePlan_def get_or_start_txn_def GetPGTransaction_def StartPGTransaction_def
      new_ExecutorContext_def AddMaterialization_def call_method_def Let_def with_context_def
      split: prod.splits)

text \<open>
  Claim C2. The block that finalizes the transaction issues one call when the transaction
  was started by this call or the initialization failed, and none otherwise; the call is
  a commit when the \<open>Result\<close> of the transaction is \<open>RESULT_SUCCESS\<close> and an abort for every
  other value. The transaction is started by this call exactly when the manager has no
  transaction for the identifier. And in every call of \<open>ExecutePlan\<close> with a plan that
  returns normally, the commits and aborts among the calls it made are: exactly one, when
  the identifier was unknown or \<open>Init\<close> returned false, a commit if the reported \<open>Result\<close>
  is \<open>RESULT_SUCCESS\<close> and an abort otherwise; and none, when the transaction existed and
  \<open>Init\<close> did not fail.
\<close>

theorem ExecutePlan_commit_or_abort:
  "calls (commit_or_abort single_statement_txn init_failure txn v) =
     calls v @
       (if single_statement_txn \<or> init_failure
        then [if txn_result v txn = RESULT_SUCCESS then Call_CommitTransaction txn
              else Call_AbortTransaction txn]
        else []) \<and>
   fst (get_or_start_txn txn_id w) = (txn_id \<notin> txn_known w) \<and>
   (ExecutePlan ext fuel (Some p) param_list tuple_desc pstatus txn_id w = Some (Inr (pstatus', w')) \<longrightarrow>
      filter is_commit_or_abort (drop (length (calls w)) (calls w')) =
        (if txn_id \<notin> txn_known w \<or>
            (\<exists>a. Call_Init a False \<in> set (drop (length (calls w)) (calls w')))
         then [if m_result pstatus' = RESULT_SUCCESS then Call_CommitTransaction txn_id
               else Call_AbortTransaction txn_id]
         else []))"
proof (intro conjI impI)
  show "calls (commit_or_abort single_statement_txn init_failure txn v) =
     calls v @
       (if single_statement_txn \<or> init_failure
        then [if txn_result v txn = RESULT_SUCCESS then Call_CommitTransaction txn
              else Call_AbortTransaction txn]
        else [])"
    by (simp add: commit_or_abort_eq)
next
  show "fst (get_or_start_txn txn_id w) = (txn_id \<notin> txn_known w)"
    by (simp add: get_or_start_txn_eq)
next
  assume "ExecutePlan ext fuel (Some p) param_list tuple_desc pstatus txn_id w = Some (Inr (pstatus', w'))"
  from ExecutePlan_new_calls[OF this] obtain a status tr as where
    c: "calls w' = calls w @ Call_GetPGTransaction txn_id #
             (if txn_id \<in> txn_known w then [] else [Call_StartPGTransaction txn_id]) @
             Call_Init a status # tr @
             (if txn_id \<notin> txn_known w \<or> \<not> status
              then [if m_result pstatus' = RESULT_SUCCESS then Call_CommitTransaction txn_id
                    else Call_AbortTransaction txn_id]
              else []) @
             map Call_delete as"
    and t: "if status then \<exists>tr'. tr = tr' @ [Call_Execute a False] \<and> list_all (loop_call a) tr'
            else tr = [Call_SetResult txn_id RESULT_FAILURE] \<and> m_result pstatus' = RESULT_FAILURE"
    by blast
  have tr: "filter is_commit_or_abort tr = [] \<and> (\<forall>b st. Call_Init b st \<notin> set tr)"
  proof (cases status)
    case True
    with t obtain tr' where "tr = tr' @ [Call_Execute a False]" "list_all (loop_call a) tr'"
      by auto
    with filter_loop_calls[of a tr'] show ?thesis by auto
  next
    case False
    with t show ?thesis by simp
  qed
  have init: "(\<exists>b. Call_Init b False \<in> set (drop (length (calls w)) (calls w'))) = (\<not> status)"
    unfolding c using tr filter_deletes[where as=as]
    by (auto split: if_splits)
  have "filter is_commit_or_abort (drop (length (calls w)) (calls w')) =
      (if txn_id \<notin> txn_known w \<or> \<not> status
              then [if m_result pstatus' = RESULT_SUCCESS then Call_CommitTransaction txn_id
                    else Call_AbortTransaction txn_id]
              else [])"
    unfolding c using tr filter_deletes[where as=as]
    by simp
  with init show "filter is_commit_or_abort (drop (length (calls w)) (calls w')) =
        (if txn_id \<notin> txn_known w \<or>
            (\<exists>a. Call_Init a False \<in> set (drop (length (calls w)) (calls w')))
         then [if m_result pstatus' = RESULT_SUCCESS then Call_CommitTransaction txn_id
               else Call_AbortTransaction txn_id]
         else [])"
    by simp
qed

theorem ExecutePlan_commit_or_abort_witness:
  "(\<exists>pstatus' w'. ExecutePlan example_externals 5 (Some example_scan) [] 0 example_status 7
                    (example_world 1) = Some (Inr (pstatus', w')) \<and>
      filter is_commit_or_abort (drop (length (calls (example_world 1))) (calls w')) =
        [Call_CommitTransaction 7]) \<and>
   (\<exists>pstatus' w'. ExecutePlan example_externals 5 (Some example_scan) [] 0 example_status 7
                    ((example_world 1)\<lparr>txn_known := {7}\<rparr>) = Some (Inr (pstatus', w')) \<and>
      filter is_commit_or_abort
        (drop (length (calls ((example_world 1)\<lparr>txn_known := {7}\<rparr>))) (calls w')) = []) \<and>
   (\<exists>pstatus' w'. ExecutePlan example_externals 5 (Some example_scan) [] 0 example_status 7
                    ((example_world 0)\<lparr>txn_known := {7}\<rparr>) = Some (Inr (pstatus', w')) \<and>
      filter is_commit_or_abort
        (drop (length (calls ((example_world 0)\<lparr>txn_known := {7}\<rparr>))) (calls w')) =
        [Call_AbortTransaction 7])"
proof -
  note spec = ExecutePlan_commit_or_abort[THEN conjunct2, THEN conjunct2, rule_format]
  obtain p1 w1 where r1: "ExecutePlan example_externals 5 (Some example_scan) [] 0 example_status 7
                    (example_world 1) = Some (Inr (p1, w1))"
    and m1: "m_result p1 = RESULT_SUCCESS"
    and k1: "7 \<notin> txn_known (example_world 1)"
    by (simp add: model_defs example_defs eval_nat_numeral)
  from spec[OF r1] m1 k1
  have a1: "filter is_commit_or_abort (drop (length (calls (example_world 1))) (calls w1)) =
        [Call_CommitTransaction 7]"
    by simp
  let ?w = "(example_world 1)\<lparr>txn_known := {7}\<rparr>"
  obtain p2 w2 where r2: "ExecutePlan example_externals 5 (Some example_scan) [] 0 example_status 7
                    ?w = Some (Inr (p2, w2))"
    and k2: "7 \<in> txn_known ?w"
    and i2: "\<And>a. Call_Init a False \<notin> set (drop (length (calls ?w)) (calls w2))"
    by (simp add: model_defs example_defs eval_nat_numeral)
  from spec[OF r2] k2 i2
  have a2: "filter is_commit_or_abort (drop (length (calls ?w)) (calls w2)) = []"
    by simp
  let ?v = "(example_world 0)\<lparr>txn_known := {7}\<rparr>"
  obtain p3 w3 where r3: "ExecutePlan example_externals 5 (Some example_scan) [] 0 example_status 7
                    ?v = Some (Inr (p3, w3))"
    and m3: "m_result p3 = RESULT_FAILURE"
    and i3: "Call_Init 1 False \<in> set (drop (length (calls ?v)) (calls w3))"
    by (simp add: model_defs example_defs eval_nat_numeral)
  from i3 have "\<exists>a. Call_Init a False \<in> set (drop (length (calls ?v)) (calls w3))" by blast
  with spec[OF r3] m3
  have a3: "filter is_commit_or_abort (drop (length (calls ?v)) (calls w3)) = [Call_AbortTransaction 7]"
    by simp
  from r1 a1 r2 a2 r3 a3 show ?thesis by blast
qed

text \<open>
  Claim C3, as stated, fails in one part: when \<open>Init\<close> returns false the caller-visible
  output need not be zero rows. The jump to the label \<open>cleanup\<close> passes over the assignment
  to \<open>m_result_slots\<close>, so a status structure that holds a slot on entry still holds it
  on return, next to the reported \<open>RESULT_FAILURE\<close>. Here the plan is a sequential scan,
  \<open>Init\<close> fails on the compiled root (the counter of the example operators is 0), and the
  status structure passed in holds the one slot \<open>[9]\<close>.
\<close>

theorem ExecutePlan_Init_failure_stale_slots_counterexample:
  "supported (Some example_scan) \<and>
   fst (Init example_externals
          (root_addr (materialized (length (executors (example_world 0))) example_scan))
          (txn_result (example_world 0) 7, opstate (example_world 0))) = False \<and>
   map_option (map_sum id fst)
     (ExecutePlan example_externals 5 (Some example_scan) [] 0 example_stale_status 7
        (example_world 0)) =
     Some (Inr \<lparr>m_result = RESULT_FAILURE, m_result_slots = [[9]]\<rparr>) \<and>
   m_result_slots \<lparr>m_result = RESULT_FAILURE, m_result_slots = [[9]]\<rparr> \<noteq> []"
  by (simp add: model_defs example_defs example_stale_status_def materialized_def
      eval_nat_numeral)

text \<open>
  Claim C3, amended. Let the root of the plan have a supported tag, so that there is a
  compiled root, and let \<open>Init\<close> return false on it. Then, with a bound that covers the
  size of the plan, \<open>ExecutePlan\<close> returns normally: the \<open>Result\<close> of the transaction is set
  to \<open>RESULT_FAILURE\<close> and reported as such; the call stores no row, the list of result
  slots being left as the caller passed it, so the output is zero rows when the list was
  empty on entry; and after the lookup of the transaction the calls are \<open>Init\<close>,
  \<open>SetResult\<close>, the abort of the transaction and the deletion of every executor of the
  compiled tree, in post-order: no \<open>Execute\<close> and no \<open>GetOutput\<close>, and finalization and
  teardown are reached.
\<close>

theorem ExecutePlan_Init_failure:
  assumes sup: "supported (Some p)"
    and root: "root = root_addr (materialized (length (executors w)) p)"
    and init: "fst (Init ext root (txn_result w txn_id, opstate w)) = False"
    and fuel: "count_plan (Some p) < fuel"
  shows "\<exists>pstatus' w'.
              ExecutePlan ext fuel (Some p) param_list tuple_desc pstatus txn_id w =
                 Some (Inr (pstatus', w')) \<and>
              pstatus' = pstatus\<lparr>m_result := RESULT_FAILURE\<rparr> \<and>
              m_result pstatus' = RESULT_FAILURE \<and>
              m_result_slots pstatus' = m_result_slots pstatus \<and>
              (m_result_slots pstatus = [] \<longrightarrow> m_result_slots pstatus' = []) \<and>
              txn_result w' txn_id = RESULT_FAILURE \<and>
              calls w' =
                calls w @ Call_GetPGTransaction txn_id #
                  (if txn_id \<in> txn_known w then [] else [Call_StartPGTransaction txn_id]) @
                  [Call_Init root False, Call_SetResult txn_id RESULT_FAILURE,
                   Call_AbortTransaction txn_id] @
                  map Call_delete (postorder (materialized (length (executors w)) p)) \<and>
              (\<forall>a \<in> set (postorder (materialized (length (executors w)) p)). deref a w' = None)"
proof -
  let ?T = "materialized (length (executors w)) p"
  let ?start = "Call_GetPGTransaction txn_id #
                  (if txn_id \<in> txn_known w then [] else [Call_StartPGTransaction txn_id])"
  define w1 where "w1 = w\<lparr>txn_known := insert txn_id (txn_known w), calls := calls w @ ?start\<rparr>"
  have g: "get_or_start_txn txn_id w = (txn_id \<notin> txn_known w, txn_id, w1)"
    by (simp add: get_or_start_txn_eq w1_def)
  have w1: "executors w1 = executors w" "txn_result w1 = txn_result w" "opstate w1 = opstate w"
    "calls w1 = calls w @ ?start"
    by (simp_all add: w1_def)
  from materialized_tree[OF sup, of ext param_list txn_id w1] w1(1) obtain w2 w3 where
    b: "BuildExecutorTree ext None (Some p) param_list txn_id w1 = Inr (w2, Some (length (executors w)))"
    and m: "AddMaterialization (Some (length (executors w))) w2 = Inr (w3, Some root)"
    and t3: "tree_at w3 ?T"
    and w3: "calls w3 = calls w1" "txn_result w3 = txn_result w1" "opstate w3 = opstate w1"
    unfolding root by auto
  from tree_at_root_live[OF t3] obtain e where e: "deref root w3 = Some e"
    unfolding root by blast
  define w4 where "w4 = w3\<lparr>txn_result := (txn_result w3)(txn_id := fst (snd (Init ext root (txn_result w3 txn_id, opstate w3)))),
                  opstate := snd (snd (Init ext root (txn_result w3 txn_id, opstate w3))),
                  calls := calls w3 @ [Call_Init root False]\<rparr>"
  have i: "call_method (Init ext) Call_Init (Some root) txn_id w3 = Inr (False, w4)"
    using call_method_eq[OF e, of "Init ext" Call_Init txn_id] init w1 w3
    by (simp add: w4_def)
  define w6 where "w6 = commit_or_abort (txn_id \<notin> txn_known w) True txn_id (SetResult txn_id RESULT_FAILURE w4)"
  have w6: "executors w6 = executors w3" "txn_result w6 txn_id = RESULT_FAILURE"
    "calls w6 = calls w3 @ [Call_Init root False, Call_SetResult txn_id RESULT_FAILURE,
                   Call_AbortTransaction txn_id]"
    by (simp_all add: w6_def commit_or_abort_eq SetResult_def w4_def)
  have t6: "tree_at w6 ?T" by (rule tree_at_same_executors[OF t3 w6(1)])
  from materialized_postorder[OF sup, of "length (executors w)"] n_exec_le_count(1)[of "Some p"] fuel
  have d: "distinct (postorder ?T)" and l: "length (postorder ?T) \<le> fuel"
    by auto
  have c: "CleanExecutorTree fuel (Some root) w6 = Some (Inr (free_all (postorder ?T) w6))"
    unfolding root by (rule Clean_tree(1)[OF t6 d l])
  have run: "ExecutePlan ext fuel (Some p) param_list tuple_desc pstatus txn_id w =
      Some (Inr (pstatus\<lparr>m_result := RESULT_FAILURE\<rparr>, free_all (postorder ?T) w6))"
    unfolding ExecutePlan_Some g prod.case b sum.case m i
    using c w6(2)
    by (simp add: cleanup_def w6_def[symmetric] GetResult_def free_all_fields)
  show ?thesis
    using run w6 w3 w1
    by (intro exI[of _ "pstatus\<lparr>m_result := RESULT_FAILURE\<rparr>"]
        exI[of _ "free_all (postorder ?T) w6"])
       (simp add: free_all_fields deref_free_all)
qed

theorem ExecutePlan_Init_failure_witness:
  "supported (Some example_scan) \<and>
   root_addr (materialized (length (executors (example_world 0))) example_scan) = 1 \<and>
   fst (Init example_externals 1 (txn_result (example_world 0) 7, opstate (example_world 0))) = False \<and>
   count_plan (Some example_scan) < 5 \<and>
   (\<exists>w'. ExecutePlan example_externals 5 (Some example_scan) [] 0 example_status 7 (example_world 0) =
            Some (Inr (\<lparr>m_result = RESULT_FAILURE, m_result_slots = []\<rparr>, w')) \<and>
          txn_result w' 7 = RESULT_FAILURE \<and>
          calls w' =
            [Call_GetPGTransaction 7, Call_StartPGTransaction 7, Call_Init 1 False,
             Call_SetResult 7 RESULT_FAILURE, Call_AbortTransaction 7, Call_delete 0,
             Call_delete 1])"
proof -
  have h1: "supported (Some example_scan)"
    and h2: "1 = root_addr (materialized (length (executors (example_world 0))) example_scan)"
    and h3: "fst (Init example_externals 1 (txn_result (example_world 0) 7, opstate (example_world 0))) = False"
    and h4: "count_plan (Some example_scan) < 5"
    by (simp_all add: example_defs materialized_def)
  have po: "postorder (materialized (length (executors (example_world 0))) example_scan) = [0, 1]"
    by (simp add: example_defs materialized_def)
  have st: "example_status\<lparr>m_result := RESULT_FAILURE\<rparr> = \<lparr>m_result = RESULT_FAILURE, m_result_slots = []\<rparr>"
    "calls (example_world 0) = []" "txn_known (example_world 0) = {}"
    by (simp_all add: example_defs)
  from ExecutePlan_Init_failure[OF h1 h2 h3 h4, of "[]" 0 example_status]
  have "\<exists>w'. ExecutePlan example_externals 5 (Some example_scan) [] 0 example_status 7 (example_world 0) =
            Some (Inr (\<lparr>m_result = RESULT_FAILURE, m_result_slots = []\<rparr>, w')) \<and>
          txn_result w' 7 = RESULT_FAILURE \<and>
          calls w' =
            [Call_GetPGTransaction 7, Call_StartPGTransaction 7, Call_Init 1 False,
             Call_SetResult 7 RESULT_FAILURE, Call_AbortTransaction 7, Call_delete 0,
             Call_delete 1]"
    unfolding po st by auto
  with h1 h2 h3 h4 show ?thesis by simp
qed

text \<open>
  Claim C4, as stated, fails: the plan \<open>example_insert\<close> has two nodes, an insert over a
  node with the tag \<open>PLAN_NODE_TYPE_INVALID\<close>. Its compilation allocates one executor, the
  insert executor, without children; \<open>AddMaterialization\<close> adds nothing; so the operator
  tree is the single node at address 0 and does not mirror the plan.
\<close>

theorem BuildExecutorTree_unsupported_child_counterexample:
  "BuildExecutorTree example_externals None (Some example_insert) [] 7 (example_world 1) =
     Inr (example_compiled, Some 0) \<and>
   AddMaterialization (Some 0) example_compiled = Inr (example_compiled, Some 0) \<and>
   tree_at example_compiled (ExecTree 0 []) \<and>
   length (executors example_compiled) = 1 \<and>
   count_plan (Some example_insert) = 2 \<and>
   \<not> mirrors example_compiled (ExecTree 0 []) example_insert"
  by (simp add: example_compiled_def example_defs new_ExecutorContext_def new_Executor_def
      AddMaterialization_def deref_def Let_def)

text \<open>
  Claim C4, amended: for every plan all of whose nodes have a tag for which the switch
  constructs an executor, the compilation returns an operator tree that mirrors the
  plan: one operator for each node, at pairwise distinct addresses, children in the order
  of the plan, each operator of the class of its node's tag and referring back to its
  node. \<open>AddMaterialization\<close> then adds one root, a materialization executor whose only
  child is the compiled root, exactly when the tag of the root of the plan is one of
  MergeJoin, NestedLoopJoin, SequentialScan, IndexScan and Limit, and otherwise adds
  nothing; the compiled tree below is unchanged.
\<close>

theorem BuildExecutorTree_mirrors_supported_plan:
  assumes "all_supported p" and "n = length (executors w)"
  shows "\<exists>w2. BuildExecutorTree ext None (Some p) param_list txn w = Inr (w2, Some n) \<and>
           mirrors w2 (layout n p) p \<and> distinct (postorder (layout n p)) \<and>
           length (postorder (layout n p)) = count_plan (Some p) \<and>
           length (executors w2) = n + count_plan (Some p) \<and>
           (if GetPlanNodeType p \<in>
                 {PLAN_NODE_TYPE_MERGEJOIN, PLAN_NODE_TYPE_NESTLOOP, PLAN_NODE_TYPE_SEQSCAN,
                  PLAN_NODE_TYPE_INDEXSCAN, PLAN_NODE_TYPE_LIMIT}
            then \<exists>w3. AddMaterialization (Some n) w2 = Inr (w3, Some (n + count_plan (Some p))) \<and>
                   deref (n + count_plan (Some p)) w3 =
                     Some \<lparr>kind = MaterializationExecutor, node = None, executor_context = None,
                           children = [n]\<rparr> \<and>
                   length (executors w3) = Suc (length (executors w2)) \<and>
                   mirrors w3 (layout n p) p
            else AddMaterialization (Some n) w2 = Inr (w2, Some n))"
proof -
  from assms(1) have sup: "supported (Some p)" by (rule all_supported_supported)
  from all_supported_n_exec(1)[OF assms(1)] have cnt: "n_exec (Some p) = count_plan (Some p)" .
  from Build_None_supported[OF sup, of ext param_list txn w] assms(2) cnt obtain w2 where
    b: "BuildExecutorTree ext None (Some p) param_list txn w = Inr (w2, Some n)"
    and c: "compiled w2 (layout n p) p"
    and l: "length (executors w2) = n + count_plan (Some p)"
    by auto
  have m2: "mirrors w2 (layout n p) p" by (rule compiled_mirrors(1)[OF c assms(1)])
  have d: "distinct (postorder (layout n p))" by (rule distinct_postorder_layout(1)[OF sup])
  have s: "length (postorder (layout n p)) = count_plan (Some p)"
    by (rule all_supported_length_postorder(1)[OF assms(1)])
  from compiled_root_node[OF c] obtain e where e: "deref n w2 = Some e" "node e = Some p"
    by auto
  note am = AddMaterialization_Some[OF e]
  show ?thesis
  proof (cases "wrapped_by_AddMaterialization (GetPlanNodeType p)")
    case False
    with b m2 d s l am show ?thesis
      by (auto simp: wrapped_by_AddMaterialization_iff)
  next
    case True
    let ?w3 = "with_materialization n w2"
    have "compiled ?w3 (layout n p) p"
    proof (rule compiled_frame(1)[OF c])
      fix a assume "a \<in> set (postorder (layout n p))"
      with postorder_layout_bounds(1)[OF sup, of n] cnt l
      show "deref a ?w3 = deref a w2"
        by (auto simp: deref_with_materialization)
    qed
    then have m3: "mirrors ?w3 (layout n p) p" by (rule compiled_mirrors(1)[OF _ assms(1)])
    have l3: "length (executors ?w3) = Suc (length (executors w2))"
      by (simp add: with_materialization_def)
    have d3: "deref (n + count_plan (Some p)) ?w3 =
        Some \<lparr>kind = MaterializationExecutor, node = None, executor_context = None, children = [n]\<rparr>"
      using l by (simp add: deref_with_materialization)
    from True am l have "AddMaterialization (Some n) w2 = Inr (?w3, Some (n + count_plan (Some p)))"
      by simp
    with True b m2 d s l m3 l3 d3 show ?thesis
      by (auto simp: wrapped_by_AddMaterialization_iff)
  qed
qed

theorem BuildExecutorTree_mirrors_supported_plan_witness:
  "all_supported example_scan \<and>
   (\<exists>w2 w3. BuildExecutorTree example_externals None (Some example_scan) [] 7 (example_world 1) =
               Inr (w2, Some 0) \<and>
             mirrors w2 (layout 0 example_scan) example_scan \<and>
             length (executors w2) = 1 \<and>
             AddMaterialization (Some 0) w2 = Inr (w3, Some 1) \<and>
             deref 1 w3 =
               Some \<lparr>kind = MaterializationExecutor, node = None, executor_context = None,
                     children = [0]\<rparr> \<and>
             mirrors w3 (layout 0 example_scan) example_scan)"
proof -
  have h1: "all_supported example_scan" and h2: "0 = length (executors (example_world 1))"
    and c: "count_plan (Some example_scan) = 1"
    and t: "GetPlanNodeType example_scan = PLAN_NODE_TYPE_SEQSCAN"
    by (simp_all add: example_defs)
  from BuildExecutorTree_mirrors_supported_plan[OF h1 h2, of example_externals "[]" 7]
  have "\<exists>w2 w3. BuildExecutorTree example_externals None (Some example_scan) [] 7 (example_world 1) =
               Inr (w2, Some 0) \<and>
             mirrors w2 (layout 0 example_scan) example_scan \<and>
             length (executors w2) = 1 \<and>
             AddMaterialization (Some 0) w2 = Inr (w3, Some 1) \<and>
             deref 1 w3 =
               Some \<lparr>kind = MaterializationExecutor, node = None, executor_context = None,
                     children = [0]\<rparr> \<and>
             mirrors w3 (layout 0 example_scan) example_scan"
    unfolding c t by auto
  with h1 show ?thesis by simp
qed

text \<open>
  Claim C5. \<open>AddMaterialization\<close> returns a null root as it is. For a live root whose plan
  node has one of the tags MergeJoin, NestedLoopJoin, SequentialScan, IndexScan and Limit
  it allocates, at a fresh address, a materialization executor without plan node and
  without context whose only child is the root, changes no other executor, and returns
  the new address; for a root with any other tag it returns the root and the state as
  they are.
\<close>

theorem AddMaterialization_spec:
  "AddMaterialization None w = Inr (w, None) \<and>
   (deref r w = Some e \<and> node e = Some raw_node \<longrightarrow>
      (if GetPlanNodeType raw_node \<in>
            {PLAN_NODE_TYPE_MERGEJOIN, PLAN_NODE_TYPE_NESTLOOP, PLAN_NODE_TYPE_SEQSCAN,
             PLAN_NODE_TYPE_INDEXSCAN, PLAN_NODE_TYPE_LIMIT}
       then (\<exists>w'. AddMaterialization (Some r) w = Inr (w', Some (length (executors w))) \<and>
                deref (length (executors w)) w = None \<and>
                deref (length (executors w)) w' =
                  Some \<lparr>kind = MaterializationExecutor, node = None, executor_context = None,
                        children = [r]\<rparr> \<and>
                (\<forall>a. a \<noteq> length (executors w) \<longrightarrow> deref a w' = deref a w) \<and>
                w' = w\<lparr>executors := executors w'\<rparr>)
       else AddMaterialization (Some r) w = Inr (w, Some r)))"
proof -
  have "AddMaterialization None w = Inr (w, None)"
    by (simp add: AddMaterialization_def)
  moreover have "deref (length (executors w)) w = None"
    by (simp add: deref_def)
  moreover have "with_materialization r w = w\<lparr>executors := executors (with_materialization r w)\<rparr>"
    by (simp add: with_materialization_def)
  ultimately show ?thesis
    using AddMaterialization_Some[of r w e raw_node]
    by (auto simp: wrapped_by_AddMaterialization_iff deref_with_materialization)
qed

theorem AddMaterialization_spec_witness:
  "deref 0 example_store =
     Some \<lparr>kind = SeqScanExecutor, node = Some example_scan, executor_context = None,
           children = [1]\<rparr> \<and>
   (\<exists>w'. AddMaterialization (Some 0) example_store = Inr (w', Some 2) \<and>
      deref 2 w' = Some \<lparr>kind = MaterializationExecutor, node = None, executor_context = None,
                         children = [0]\<rparr>) \<and>
   AddMaterialization (Some 1) example_store = Inr (example_store, Some 1)"
proof -
  let ?e0 = "\<lparr>kind = SeqScanExecutor, node = Some example_scan, executor_context = None,
              children = [1]\<rparr>"
  let ?e1 = "\<lparr>kind = InsertExecutor, node = Some example_insert, executor_context = None,
              children = []\<rparr>"
  have d0: "deref 0 example_store = Some ?e0" and d1: "deref 1 example_store = Some ?e1"
    and len: "length (executors example_store) = 2"
    by (simp_all add: example_store_def deref_def)
  have t0: "GetPlanNodeType example_scan = PLAN_NODE_TYPE_SEQSCAN"
    and t1: "GetPlanNodeType example_insert = PLAN_NODE_TYPE_INSERT"
    by (simp_all add: example_scan_def example_insert_def)
  from AddMaterialization_spec[of example_store 0 ?e0 example_scan] d0 t0 len
  have "\<exists>w'. AddMaterialization (Some 0) example_store = Inr (w', Some 2) \<and>
      deref 2 w' = Some \<lparr>kind = MaterializationExecutor, node = None, executor_context = None,
                         children = [0]\<rparr>"
    by auto
  moreover from AddMaterialization_spec[of example_store 1 ?e1 example_insert] d1 t1
  have "AddMaterialization (Some 1) example_store = Inr (example_store, Some 1)"
    by auto
  ultimately show ?thesis using d0 by blast
qed

text \<open>
  Claim C6. A round of the pull loop in which \<open>Execute\<close> returns false ends the loop with
  the slots gathered so far. A round in which \<open>Execute\<close> returns true and \<open>GetOutput\<close> gives
  a null batch extracts no row: the loop goes on to its next round with the same slots.
  And whenever the loop returns, the last call it made is a call of \<open>Execute\<close> that returned
  false, and no earlier call of \<open>Execute\<close> returned false.
\<close>

theorem ExecutePlan_loop_pulls:
  "(call_method (Execute ext) Call_Execute tree txn w = Inr (False, w1) \<longrightarrow>
      ExecutePlan_loop ext (Suc rounds) tree tuple_desc txn slots w = Some (Inr (slots, w1))) \<and>
   (call_method (Execute ext) Call_Execute tree txn w = Inr (True, w1) \<and>
    call_method (GetOutput ext) Call_GetOutput tree txn w1 = Inr (None, w2) \<longrightarrow>
      ExecutePlan_loop ext (Suc rounds) tree tuple_desc txn slots w =
        ExecutePlan_loop ext rounds tree tuple_desc txn slots w2) \<and>
   (ExecutePlan_loop ext rounds tree tuple_desc txn slots w = Some (Inr (slots', w')) \<longrightarrow>
      (\<exists>a tr. tree = Some a \<and> calls w' = calls w @ tr @ [Call_Execute a False] \<and>
         Call_Execute a False \<notin> set tr \<and> list_all (loop_call a) tr))"
proof (intro conjI impI)
  assume "call_method (Execute ext) Call_Execute tree txn w = Inr (False, w1)"
  then show "ExecutePlan_loop ext (Suc rounds) tree tuple_desc txn slots w = Some (Inr (slots, w1))"
    by simp
next
  assume "call_method (Execute ext) Call_Execute tree txn w = Inr (True, w1) \<and>
    call_method (GetOutput ext) Call_GetOutput tree txn w1 = Inr (None, w2)"
  then show "ExecutePlan_loop ext (Suc rounds) tree tuple_desc txn slots w =
        ExecutePlan_loop ext rounds tree tuple_desc txn slots w2"
    by simp
next
  assume "ExecutePlan_loop ext rounds tree tuple_desc txn slots w = Some (Inr (slots', w'))"
  from ExecutePlan_loop_trace[OF this] obtain a tr where
    "tree = Some a" "calls w' = calls w @ tr @ [Call_Execute a False]" "list_all (loop_call a) tr"
    by blast
  with loop_call_not_stop[of a tr]
  show "\<exists>a tr. tree = Some a \<and> calls w' = calls w @ tr @ [Call_Execute a False] \<and>
         Call_Execute a False \<notin> set tr \<and> list_all (loop_call a) tr"
    by blast
qed

theorem ExecutePlan_loop_pulls_witness:
  "(\<exists>w1. call_method (Execute example_externals) Call_Execute (Some 0) 7
            (example_store\<lparr>opstate := 3\<rparr>) = Inr (False, w1) \<and>
          ExecutePlan_loop example_externals (Suc 0) (Some 0) 0 7 [[5]] (example_store\<lparr>opstate := 3\<rparr>) =
            Some (Inr ([[5]], w1))) \<and>
   (\<exists>w1 w2. call_method (Execute example_externals) Call_Execute (Some 0) 7 example_store =
               Inr (True, w1) \<and>
             call_method (GetOutput example_externals) Call_GetOutput (Some 0) 7 w1 = Inr (None, w2) \<and>
             ExecutePlan_loop example_externals (Suc 2) (Some 0) 0 7 [[5]] example_store =
               ExecutePlan_loop example_externals 2 (Some 0) 0 7 [[5]] w2) \<and>
   (\<exists>slots' w' tr. ExecutePlan_loop example_externals 3 (Some 0) 0 7 [[5]] example_store =
               Some (Inr (slots', w')) \<and>
             calls w' = calls example_store @ tr @ [Call_Execute 0 False] \<and>
             Call_Execute 0 False \<notin> set tr)"
proof -
  let ?w3 = "example_store\<lparr>opstate := 3\<rparr>"
  obtain w1 where e3: "call_method (Execute example_externals) Call_Execute (Some 0) 7 ?w3 = Inr (False, w1)"
    by (simp add: call_method_def deref_def example_store_def example_defs)
  note pulls = ExecutePlan_loop_pulls
  from pulls[where ext=example_externals and tree="Some 0" and txn=7 and w="?w3" and ?w1.0=w1
      and rounds=0 and tuple_desc=0 and slots="[[5]]", THEN conjunct1, rule_format, OF e3] e3
  have first: "\<exists>w1. call_method (Execute example_externals) Call_Execute (Some 0) 7 ?w3 = Inr (False, w1) \<and>
          ExecutePlan_loop example_externals (Suc 0) (Some 0) 0 7 [[5]] ?w3 = Some (Inr ([[5]], w1))"
    by blast
  obtain v1 v2 where e1: "call_method (Execute example_externals) Call_Execute (Some 0) 7 example_store =
               Inr (True, v1) \<and>
             call_method (GetOutput example_externals) Call_GetOutput (Some 0) 7 v1 = Inr (None, v2)"
    by (simp add: call_method_def deref_def example_store_def example_defs)
  from pulls[where ext=example_externals and tree="Some 0" and txn=7 and w=example_store
      and ?w1.0=v1 and ?w2.0=v2 and rounds=2 and tuple_desc=0 and slots="[[5]]",
      THEN conjunct2, THEN conjunct1, rule_format, OF e1] e1
  have second: "\<exists>w1 w2. call_method (Execute example_externals) Call_Execute (Some 0) 7 example_store =
               Inr (True, w1) \<and>
             call_method (GetOutput example_externals) Call_GetOutput (Some 0) 7 w1 = Inr (None, w2) \<and>
             ExecutePlan_loop example_externals (Suc 2) (Some 0) 0 7 [[5]] example_store =
               ExecutePlan_loop example_externals 2 (Some 0) 0 7 [[5]] w2"
    by blast
  obtain slots' w' where l: "ExecutePlan_loop example_externals 3 (Some 0) 0 7 [[5]] example_store =
               Some (Inr (slots', w'))"
    by (simp add: call_method_def deref_def example_store_def example_defs eval_nat_numeral)
  from pulls[where ext=example_externals and tree="Some 0" and txn=7 and w=example_store
      and rounds=3 and tuple_desc=0 and slots="[[5]]" and slots'=slots' and w'=w',
      THEN conjunct2, THEN conjunct2, rule_format, OF l] l
  have third: "\<exists>slots' w' tr. ExecutePlan_loop example_externals 3 (Some 0) 0 7 [[5]] example_store =
               Some (Inr (slots', w')) \<and>
             calls w' = calls example_store @ tr @ [Call_Execute 0 False] \<and>
             Call_Execute 0 False \<notin> set tr"
    by auto
  from first second third show ?thesis by blast
qed

text \<open>
  Claim C7. The rows of a batch are visited in storage order: a tuple whose conversion
  fails is left out and the iteration goes on with the next tuple; a tuple whose
  conversion succeeds has its slot appended after the slots gathered so far. So a batch
  contributes the slots of its convertible tuples, in storage order, after the earlier
  slots. A round of the pull loop with a batch hands the slots so extended to the next
  round, and when the loop returns, the slots are those it started with followed by the
  contributions of the batches in the order in which \<open>GetOutput\<close> returned them.
\<close>

theorem get_result_slots_order:
  "get_result_slots ext tuple_desc tile slots =
     slots @ List.map_filter (\<lambda>tuple. GetPostgresTuple ext tuple tuple_desc) tile \<and>
   (GetPostgresTuple ext tuple tuple_desc = None \<longrightarrow>
      get_result_slots ext tuple_desc (tuple # rest) slots =
        get_result_slots ext tuple_desc rest slots) \<and>
   (GetPostgresTuple ext tuple tuple_desc = Some slot \<longrightarrow>
      get_result_slots ext tuple_desc (tuple # rest) slots =
        get_result_slots ext tuple_desc rest (slots @ [slot])) \<and>
   (call_method (Execute ext) Call_Execute tree txn w = Inr (True, w1) \<and>
    call_method (GetOutput ext) Call_GetOutput tree txn w1 = Inr (Some t, w2) \<and>
    GetBaseTile t 0 = Some base_tile \<longrightarrow>
      ExecutePlan_loop ext (Suc rounds) tree tuple_desc txn slots w =
        ExecutePlan_loop ext rounds tree tuple_desc txn
          (slots @ List.map_filter (\<lambda>tuple. GetPostgresTuple ext tuple tuple_desc) base_tile) w2) \<and>
   (ExecutePlan_loop ext rounds tree tuple_desc txn slots w = Some (Inr (slots', w')) \<longrightarrow>
      slots' =
        slots @
        concat (map (List.map_filter (\<lambda>tuple. GetPostgresTuple ext tuple tuple_desc))
                  (pulled_tiles (drop (length (calls w)) (calls w')))))"
proof (intro conjI impI)
  show "get_result_slots ext tuple_desc tile slots =
     slots @ List.map_filter (\<lambda>tuple. GetPostgresTuple ext tuple tuple_desc) tile"
    by (rule get_result_slots_eq)
next
  assume "GetPostgresTuple ext tuple tuple_desc = None"
  then show "get_result_slots ext tuple_desc (tuple # rest) slots =
        get_result_slots ext tuple_desc rest slots"
    by simp
next
  assume "GetPostgresTuple ext tuple tuple_desc = Some slot"
  then show "get_result_slots ext tuple_desc (tuple # rest) slots =
        get_result_slots ext tuple_desc rest (slots @ [slot])"
    by simp
next
  assume "call_method (Execute ext) Call_Execute tree txn w = Inr (True, w1) \<and>
    call_method (GetOutput ext) Call_GetOutput tree txn w1 = Inr (Some t, w2) \<and>
    GetBaseTile t 0 = Some base_tile"
  then show "ExecutePlan_loop ext (Suc rounds) tree tuple_desc txn slots w =
        ExecutePlan_loop ext rounds tree tuple_desc txn
          (slots @ List.map_filter (\<lambda>tuple. GetPostgresTuple ext tuple tuple_desc) base_tile) w2"
    by (simp add: get_result_slots_eq)
next
  assume "ExecutePlan_loop ext rounds tree tuple_desc txn slots w = Some (Inr (slots', w'))"
  from ExecutePlan_loop_trace[OF this] obtain a tr where
    "calls w' = calls w @ tr @ [Call_Execute a False]"
    "slots' = slots @ concat (map (List.map_filter (\<lambda>tuple. GetPostgresTuple ext tuple tuple_desc))
                              (pulled_tiles tr))"
    by blast
  then show "slots' =
        slots @
        concat (map (List.map_filter (\<lambda>tuple. GetPostgresTuple ext tuple tuple_desc))
                  (pulled_tiles (drop (length (calls w)) (calls w'))))"
    by (simp add: pulled_tiles_append)
qed

theorem get_result_slots_order_witness:
  "GetPostgresTuple example_externals [] 0 = None \<and>
   GetPostgresTuple example_externals [2] 0 = Some [2] \<and>
   get_result_slots example_externals 0 [[1], [], [2]] [[5]] = [[5], [1], [2]] \<and>
   get_result_slots example_externals 0 [[], [2]] [[5], [1]] =
     get_result_slots example_externals 0 [[2]] [[5], [1]] \<and>
   get_result_slots example_externals 0 [[2]] [[5], [1]] =
     get_result_slots example_externals 0 [] ([[5], [1]] @ [[2]]) \<and>
   (\<exists>w1 w2. call_method (Execute example_externals) Call_Execute (Some 0) 7
               (example_store\<lparr>opstate := 2\<rparr>) = Inr (True, w1) \<and>
             call_method (GetOutput example_externals) Call_GetOutput (Some 0) 7 w1 =
               Inr (Some example_tile, w2) \<and>
             GetBaseTile example_tile 0 = Some [[1], [], [2]] \<and>
             ExecutePlan_loop example_externals (Suc 1) (Some 0) 0 7 [[5]]
               (example_store\<lparr>opstate := 2\<rparr>) =
               ExecutePlan_loop example_externals 1 (Some 0) 0 7 [[5], [1], [2]] w2) \<and>
   (\<exists>w'. ExecutePlan_loop example_externals 3 (Some 0) 0 7 [[5]] example_store =
            Some (Inr ([[5], [1], [2]], w')) \<and>
          pulled_tiles (drop (length (calls example_store)) (calls w')) = [[[1], [], [2]]])"
proof -
  note order = get_result_slots_order
  have n: "GetPostgresTuple example_externals [] 0 = None"
    and s: "GetPostgresTuple example_externals [2] 0 = Some [2]"
    by (simp_all add: example_externals_def)
  have mf: "List.map_filter (\<lambda>tuple. GetPostgresTuple example_externals tuple 0) [[1], [], [2]] =
      [[1], [2]]"
    by (simp add: example_externals_def List.map_filter_simps)
  from order[where ext=example_externals and tuple_desc=0 and tile="[[1], [], [2]]"
      and slots="[[5]]", THEN conjunct1] mf
  have a1: "get_result_slots example_externals 0 [[1], [], [2]] [[5]] = [[5], [1], [2]]"
    by simp
  from order[where ext=example_externals and tuple_desc=0 and tuple="[]" and rest="[[2]]"
      and slots="[[5], [1]]", THEN conjunct2, THEN conjunct1, rule_format, OF n]
  have a2: "get_result_slots example_externals 0 [[], [2]] [[5], [1]] =
     get_result_slots example_externals 0 [[2]] [[5], [1]]" .
  from order[where ext=example_externals and tuple_desc=0 and tuple="[2]" and rest="[]"
      and slots="[[5], [1]]" and slot="[2]", THEN conjunct2, THEN conjunct2, THEN conjunct1,
      rule_format, OF s]
  have a3: "get_result_slots example_externals 0 [[2]] [[5], [1]] =
     get_result_slots example_externals 0 [] ([[5], [1]] @ [[2]])" .
  let ?w = "example_store\<lparr>opstate := 2\<rparr>"
  obtain v1 v2 where e: "call_method (Execute example_externals) Call_Execute (Some 0) 7 ?w = Inr (True, v1) \<and>
      call_method (GetOutput example_externals) Call_GetOutput (Some 0) 7 v1 = Inr (Some example_tile, v2) \<and>
      GetBaseTile example_tile 0 = Some [[1], [], [2]]"
    by (simp add: call_method_def deref_def example_store_def example_externals_def
        example_world_def example_scan_def example_insert_def)
       (simp add: example_tile_def)
  from order[where ext=example_externals and tuple_desc=0 and tree="Some 0" and txn=7 and w="?w"
      and ?w1.0=v1 and ?w2.0=v2 and t=example_tile and base_tile="[[1], [], [2]]" and rounds=1
      and slots="[[5]]",
      THEN conjunct2, THEN conjunct2, THEN conjunct2, THEN conjunct1, rule_format, OF e]
  have "ExecutePlan_loop example_externals (Suc 1) (Some 0) 0 7 [[5]] ?w =
               ExecutePlan_loop example_externals 1 (Some 0) 0 7 [[5], [1], [2]] v2"
    unfolding mf by (simp only: append.simps)
  with e
  have a4: "\<exists>w1 w2. call_method (Execute example_externals) Call_Execute (Some 0) 7 ?w = Inr (True, w1) \<and>
             call_method (GetOutput example_externals) Call_GetOutput (Some 0) 7 w1 =
               Inr (Some example_tile, w2) \<and>
             GetBaseTile example_tile 0 = Some [[1], [], [2]] \<and>
             ExecutePlan_loop example_externals (Suc 1) (Some 0) 0 7 [[5]] ?w =
               ExecutePlan_loop example_externals 1 (Some 0) 0 7 [[5], [1], [2]] w2"
    by blast
  obtain slots' w' where l: "ExecutePlan_loop example_externals 3 (Some 0) 0 7 [[5]] example_store =
               Some (Inr (slots', w'))"
    and p: "pulled_tiles (drop (length (calls example_store)) (calls w')) = [[[1], [], [2]]]"
    by (simp add: call_method_def deref_def example_store_def example_defs eval_nat_numeral)
  from order[where ext=example_externals and tuple_desc=0 and tree="Some 0" and txn=7
      and w=example_store and rounds=3 and slots="[[5]]" and slots'=slots' and w'=w',
      THEN conjunct2, THEN conjunct2, THEN conjunct2, THEN conjunct2, rule_format, OF l] p mf
  have "slots' = [[5], [1], [2]]" by simp
  with l p have a5: "\<exists>w'. ExecutePlan_loop example_externals 3 (Some 0) 0 7 [[5]] example_store =
            Some (Inr ([[5], [1], [2]], w')) \<and>
          pulled_tiles (drop (length (calls example_store)) (calls w')) = [[[1], [], [2]]]"
    by blast
  from n s a1 a2 a3 a4 a5 show ?thesis by blast
qed


text \<open>
  Claim C9. A compilation allocates exactly one execution context for every plan node it
  visits, whatever the tag: started on a null root or on a live executor,
  \<open>BuildExecutorTree\<close> returns, and the contexts afterwards are the contexts before followed
  by one context, holding the transaction and the converted parameters, for each node of
  the plan. Executors are allocated only for the nodes with a supported tag.
\<close>

theorem BuildExecutorTree_contexts:
  assumes "root_ok root w"
  shows "\<exists>w' r. BuildExecutorTree ext root plan param_list txn w = Inr (w', r) \<and>
           contexts w' =
             contexts w @
               replicate (count_plan plan) \<lparr>ctx_txn = txn, ctx_params = BuildParams ext param_list\<rparr> \<and>
           length (executors w') = length (executors w) + n_exec plan"
proof -
  have "Build_ok ext param_list txn root plan w" by (rule Build_ok_all)
  with assms obtain w' r where
    b: "BuildExecutorTree ext root plan param_list txn w = Inr (w', r)"
    and e: "extends w root (if supported plan then [length (executors w)] else []) (n_exec plan) w'"
    unfolding Build_ok_def by blast
  from Build_fields[OF b] e b show ?thesis
    by (auto simp: same_but_store_def extends_def)
qed

theorem BuildExecutorTree_contexts_witness:
  "root_ok None (example_world 1) \<and>
   (\<exists>w' r. BuildExecutorTree example_externals None (Some example_insert) [] 7 (example_world 1) =
              Inr (w', r) \<and>
            contexts w' = [\<lparr>ctx_txn = 7, ctx_params = []\<rparr>, \<lparr>ctx_txn = 7, ctx_params = []\<rparr>] \<and>
            length (executors w') = 1)"
proof -
  have ok: "root_ok None (example_world 1)" by (simp add: root_ok_def)
  have "count_plan (Some example_insert) = 2" "n_exec (Some example_insert) = 1"
    "BuildParams example_externals [] = []" "contexts (example_world 1) = []"
    "executors (example_world 1) = []"
    by (simp_all add: example_defs)
  with BuildExecutorTree_contexts[OF ok, of example_externals "Some example_insert" "[]" 7] ok
  show ?thesis by (simp add: numeral_2_eq_2)
qed

text \<open>
  Claim C10. \<open>CleanExecutorTree\<close> on a null pointer returns without any effect, whatever
  the depth allowed. On the root of a tree that the store holds, with pairwise distinct
  addresses, it returns as soon as the depth allowed is at least the size of the tree; it
  deletes exactly the executors of the tree, each once, in post-order, so every child
  before its parent, and changes nothing else. The teardown at the end of \<open>ExecutePlan\<close>,
  reached with a null tree, therefore returns normally.
\<close>

theorem CleanExecutorTree_postorder:
  "CleanExecutorTree depth None w = Some (Inr w) \<and>
   cleanup fuel single_statement_txn init_failure txn None pstatus w =
     Some (Inr (pstatus\<lparr>m_result := txn_result w txn\<rparr>,
                commit_or_abort single_statement_txn init_failure txn w)) \<and>
   (tree_at w t \<and> distinct (postorder t) \<and> length (postorder t) \<le> depth \<longrightarrow>
      (\<exists>w'. CleanExecutorTree depth (Some (root_addr t)) w = Some (Inr w') \<and>
         calls w' = calls w @ map Call_delete (postorder t) \<and>
         postorder t = postorders (subtrees t) @ [root_addr t] \<and>
         (\<forall>a. deref a w' = (if a \<in> set (postorder t) then None else deref a w)) \<and>
         contexts w' = contexts w \<and> txn_known w' = txn_known w \<and>
         txn_result w' = txn_result w \<and> opstate w' = opstate w))"
proof (intro conjI impI)
  show "CleanExecutorTree depth None w = Some (Inr w)" by simp
next
  show "cleanup fuel single_statement_txn init_failure txn None pstatus w =
     Some (Inr (pstatus\<lparr>m_result := txn_result w txn\<rparr>,
                commit_or_abort single_statement_txn init_failure txn w))"
    by (simp add: cleanup_def GetResult_def commit_or_abort_eq)
next
  assume a: "tree_at w t \<and> distinct (postorder t) \<and> length (postorder t) \<le> depth"
  then have "CleanExecutorTree depth (Some (root_addr t)) w = Some (Inr (free_all (postorder t) w))"
    using Clean_tree(1)[of w t depth] by blast
  moreover have "postorder t = postorders (subtrees t) @ [root_addr t]"
    by (cases t) simp
  ultimately show "\<exists>w'. CleanExecutorTree depth (Some (root_addr t)) w = Some (Inr w') \<and>
         calls w' = calls w @ map Call_delete (postorder t) \<and>
         postorder t = postorders (subtrees t) @ [root_addr t] \<and>
         (\<forall>a. deref a w' = (if a \<in> set (postorder t) then None else deref a w)) \<and>
         contexts w' = contexts w \<and> txn_known w' = txn_known w \<and>
         txn_result w' = txn_result w \<and> opstate w' = opstate w"
    by (simp add: free_all_fields deref_free_all)
qed

theorem CleanExecutorTree_postorder_witness:
  "tree_at example_store (ExecTree 0 [ExecTree 1 []]) \<and>
   distinct (postorder (ExecTree 0 [ExecTree 1 []])) \<and>
   length (postorder (ExecTree 0 [ExecTree 1 []])) \<le> 2 \<and>
   (\<exists>w'. CleanExecutorTree 2 (Some 0) example_store = Some (Inr w') \<and>
      calls w' = [Call_delete 1, Call_delete 0] \<and> deref 0 w' = None \<and> deref 1 w' = None)"
proof -
  let ?t = "ExecTree 0 [ExecTree 1 []]"
  have h: "tree_at example_store ?t \<and> distinct (postorder ?t) \<and> length (postorder ?t) \<le> 2"
    by (simp add: example_store_def deref_def)
  have c: "calls example_store = []" by (simp add: example_store_def example_world_def)
  from CleanExecutorTree_postorder[of 2 example_store 0 False False 0 example_status ?t,
      THEN conjunct2, THEN conjunct2, rule_format, OF h]
  obtain w' where "CleanExecutorTree 2 (Some (root_addr ?t)) example_store = Some (Inr w')"
    "calls w' = calls example_store @ map Call_delete (postorder ?t)"
    "\<And>a. deref a w' = (if a \<in> set (postorder ?t) then None else deref a example_store)"
    by blast
  with c have "CleanExecutorTree 2 (Some 0) example_store = Some (Inr w') \<and>
      calls w' = [Call_delete 1, Call_delete 0] \<and> deref 0 w' = None \<and> deref 1 w' = None"
    by simp
  with h show ?thesis by blast
qed

end
